theory Spec2Isabelle
  imports Main "HOL-Library.Multiset" "HOL-Library.Char_ord" "HOL-Library.List_Lexorder" "HOL-Library.Product_Lexorder"
begin

section \<open>Python values, exceptions and the driver connection\<close>

text \<open>
  Exceptions are values: every function of the dialect that can raise returns
  \<open>error + 'a\<close>, with \<open>Inl\<close> the exception. \<open>NoSuchTableError\<close> and \<open>DBAPIError\<close> are
  the two SQLAlchemy exceptions the dialect names; the string of \<open>DBAPIError\<close> is the
  \<open>message\<close> of the driver exception it wraps (\<open>e.orig.message\<close>).
\<close>

datatype error =
    ValueError
  | OverflowError
  | TypeError
  | AttributeError
  | IndexError
  | KeyError string
  | AssertionError string
  | NoSuchTableError string
  | DBAPIError string

text \<open>
  A value the driver hands over: \<open>None\<close> (SQL NULL), an integer, a string, a
  \<open>datetime.date\<close> (year, month, day), a \<open>datetime.datetime\<close> (with hour, minute,
  second, microsecond) or a \<open>datetime.time\<close>.
\<close>

datatype py_value =
    PyNone
  | PyInt int
  | PyStr string
  | PyDate int int int
  | PyDateTime int int int int int int int
  | PyTime int int int int

type_synonym row = "py_value list"

text \<open>A statement is its SQL text and its bound parameters, in the order of the dict.\<close>

type_synonym statement = "string \<times> (string \<times> string option) list"

text \<open>
  The connection belongs to the driver. Its answer to a statement is arbitrary
  (\<open>respond\<close>: rows or an exception); \<open>issued\<close> records the statements sent so far, so
  that what a reflection method asks of the connection is part of its result.
\<close>

record connection =
  respond :: "statement \<Rightarrow> error + row list"
  issued :: "statement list"

definition execute ::
  "connection \<Rightarrow> string \<Rightarrow> (string \<times> string option) list \<Rightarrow> (error + row list) \<times> connection" where
  "execute c q params = (respond c (q, params), c\<lparr>issued := issued c @ [(q, params)]\<rparr>)"

text \<open>\<open>row[i]\<close>: an index out of range raises \<open>IndexError\<close>.\<close>

definition row_get :: "row \<Rightarrow> nat \<Rightarrow> error + py_value" where
  "row_get r i = (if i < length r then Inr (r ! i) else Inl IndexError)"

text \<open>
  The dialect object: the default schema, the cached server version and the identifier
  preparer's \<open>quote_identifier\<close>, which is SQLAlchemy's and is taken as it comes (it is
  applied to whatever the caller passes, \<open>None\<close> included).
\<close>

record dialect =
  default_schema_name :: "string option"
  server_version_info :: "int list"
  quote_identifier :: "string option \<Rightarrow> error + string"

definition newline :: char where
  "newline = CHR 0x0A"

definition tab :: char where
  "tab = CHR 0x09"

definition apostrophe :: char where
  "apostrophe = CHR 0x27"

section \<open>Strings\<close>

text \<open>
  A Python \<open>str\<close> is a sequence of code points. The model has the code points below
  256, one \<open>char\<close> each, and \<open>code\<close> is \<open>ord\<close>. The character classes below are those
  of \<open>re\<close> and \<open>str\<close> on this range.
\<close>

definition code :: "char \<Rightarrow> nat" where
  "code c = of_char c"

text \<open>\<open>\d\<close>.\<close>

definition is_digit :: "char \<Rightarrow> bool" where
  "is_digit c = (48 \<le> code c \<and> code c \<le> 57)"

text \<open>\<open>\w\<close>: letters, digits and the underscore, the Latin-1 letters and numerics included.\<close>

definition is_word :: "char \<Rightarrow> bool" where
  "is_word c =
     (let n = code c
      in (48 \<le> n \<and> n \<le> 57) \<or> (65 \<le> n \<and> n \<le> 90) \<or> n = 95 \<or> (97 \<le> n \<and> n \<le> 122)
         \<or> n = 170 \<or> n = 178 \<or> n = 179 \<or> n = 181 \<or> n = 185 \<or> n = 186
         \<or> (188 \<le> n \<and> n \<le> 190) \<or> (192 \<le> n \<and> n \<le> 214) \<or> (216 \<le> n \<and> n \<le> 246)
         \<or> 248 \<le> n)"

text \<open>\<open>.\<close> without the DOTALL flag: anything but a newline.\<close>

definition is_dot :: "char \<Rightarrow> bool" where
  "is_dot c = (c \<noteq> newline)"

text \<open>The whitespace \<open>int()\<close> strips.\<close>

definition is_space :: "char \<Rightarrow> bool" where
  "is_space c = (code c \<in> {9, 10, 11, 12, 13, 32, 133, 160})"

text \<open>\<open>str.lower()\<close>.\<close>

definition lower_char :: "char \<Rightarrow> char" where
  "lower_char c =
     (let n = code c
      in if (65 \<le> n \<and> n \<le> 90) \<or> (192 \<le> n \<and> n \<le> 214) \<or> (216 \<le> n \<and> n \<le> 222)
         then char_of (n + 32) else c)"

definition lower :: "string \<Rightarrow> string" where
  "lower s = map lower_char s"

text \<open>\<open>s.startswith(w)\<close> and \<open>w in s\<close>.\<close>

definition is_prefix :: "string \<Rightarrow> string \<Rightarrow> bool" where
  "is_prefix w s = (take (length w) s = w)"

fun str_contains :: "string \<Rightarrow> string \<Rightarrow> bool" where
  "str_contains w [] = (w = [])"
| "str_contains w (c # cs) = (is_prefix w (c # cs) \<or> str_contains w cs)"

text \<open>
  \<open>s.split(sep)\<close>: the pieces between the occurrences of \<open>sep\<close>, found from the left
  without overlap, for the non-empty separator \<open>c0 # crest\<close>.
\<close>

function split_loop :: "char \<Rightarrow> string \<Rightarrow> string \<Rightarrow> string \<Rightarrow> string list" where
  "split_loop c0 crest cur [] = [cur]"
| "split_loop c0 crest cur (x # xs) =
     (if is_prefix (c0 # crest) (x # xs)
      then cur # split_loop c0 crest [] (drop (length crest) xs)
      else split_loop c0 crest (cur @ [x]) xs)"
  by pat_completeness auto
termination
  by (relation "measure (\<lambda>(c0, crest, cur, s). length s)") auto

definition str_split :: "string \<Rightarrow> char \<Rightarrow> string \<Rightarrow> string list" where
  "str_split s c0 crest = split_loop c0 crest [] s"

text \<open>
  \<open>int(s)\<close> of a string: surrounding whitespace is stripped, a sign may lead, and the
  digits may be grouped by single underscores; anything else raises \<open>ValueError\<close>, as
  does a number of more than \<open>int_max_str_digits\<close> digits (CPython's default limit).
\<close>

definition int_max_str_digits :: nat where
  "int_max_str_digits = 4300"

definition strip :: "string \<Rightarrow> string" where
  "strip s = rev (dropWhile is_space (rev (dropWhile is_space s)))"

fun digits_tail :: "string \<Rightarrow> bool" where
  "digits_tail [] = True"
| "digits_tail (c # cs) =
     (if is_digit c then digits_tail cs
      else if c = CHR ''_'' then (case cs of [] \<Rightarrow> False | d # ds \<Rightarrow> is_digit d \<and> digits_tail ds)
      else False)"

definition valid_int_body :: "string \<Rightarrow> bool" where
  "valid_int_body s = (case s of [] \<Rightarrow> False | c # cs \<Rightarrow> is_digit c \<and> digits_tail cs)"

definition digit_value :: "char \<Rightarrow> int" where
  "digit_value c = int (code c) - 48"

definition decimal_value :: "string \<Rightarrow> int" where
  "decimal_value ds = foldl (\<lambda>acc d. 10 * acc + digit_value d) 0 ds"

definition py_int :: "string \<Rightarrow> error + int" where
  "py_int s =
     (let t = strip s;
          negative = (case t of [] \<Rightarrow> False | c # r \<Rightarrow> c = CHR ''-'');
          body = (case t of [] \<Rightarrow> [] | c # r \<Rightarrow> if c = CHR ''-'' \<or> c = CHR ''+'' then r else t);
          ds = filter is_digit body
      in if valid_int_body body \<and> length ds \<le> int_max_str_digits
         then Inr (if negative then - decimal_value ds else decimal_value ds)
         else Inl ValueError)"

text \<open>A list comprehension whose element expression may raise: the first exception wins.\<close>

fun comprehension :: "('a \<Rightarrow> error + 'b) \<Rightarrow> 'a list \<Rightarrow> error + 'b list" where
  "comprehension f [] = Inr []"
| "comprehension f (x # xs) =
     (case f x of
        Inl e \<Rightarrow> Inl e
      | Inr y \<Rightarrow> (case comprehension f xs of Inl e \<Rightarrow> Inl e | Inr ys \<Rightarrow> Inr (y # ys)))"

section \<open>Regular expressions\<close>

text \<open>
  A pattern is a matcher: applied to a string it lists the ways of matching a prefix,
  each with what it captured and the rest of the string, in the order in which the
  backtracking of \<open>re\<close> tries them (a greedy repetition the longest first, a lazy one
  the shortest first, an optional group before its omission). \<open>re.match\<close> takes the
  first.
\<close>

type_synonym 'a matcher = "string \<Rightarrow> ('a \<times> string) list"

definition return_m :: "'a \<Rightarrow> 'a matcher" where
  "return_m a s = [(a, s)]"

definition then_m :: "'a matcher \<Rightarrow> ('a \<Rightarrow> 'b matcher) \<Rightarrow> 'b matcher" where
  "then_m p f s = concat (map (\<lambda>(a, r). f a r) (p s))"

definition one_char :: "(char \<Rightarrow> bool) \<Rightarrow> string matcher" where
  "one_char P s = (case s of [] \<Rightarrow> [] | c # cs \<Rightarrow> if P c then [([c], cs)] else [])"

definition lit_char :: "char \<Rightarrow> string matcher" where
  "lit_char c = one_char (\<lambda>x. x = c)"

definition lit_str :: "string \<Rightarrow> string matcher" where
  "lit_str w s = (if is_prefix w s then [(w, drop (length w) s)] else [])"

fun greedy_star :: "(char \<Rightarrow> bool) \<Rightarrow> string matcher" where
  "greedy_star P [] = [([], [])]"
| "greedy_star P (c # cs) =
     (if P c then map (\<lambda>(m, r). (c # m, r)) (greedy_star P cs) else []) @ [([], c # cs)]"

definition greedy_plus :: "(char \<Rightarrow> bool) \<Rightarrow> string matcher" where
  "greedy_plus P s =
     (case s of [] \<Rightarrow> [] | c # cs \<Rightarrow> if P c then map (\<lambda>(m, r). (c # m, r)) (greedy_star P cs) else [])"

definition lazy_star :: "(char \<Rightarrow> bool) \<Rightarrow> string matcher" where
  "lazy_star P s = rev (greedy_star P s)"

text \<open>\<open>(?:w)*\<close> for a literal word \<open>w\<close>.\<close>

function star_str :: "string \<Rightarrow> string matcher" where
  "star_str w s =
     (if w \<noteq> [] \<and> is_prefix w s
      then map (\<lambda>(m, r). (w @ m, r)) (star_str w (drop (length w) s)) else [])
     @ [([], s)]"
  by pat_completeness auto
termination
proof (relation "measure (\<lambda>(w, s). length s)")
  show "wf (measure (\<lambda>(w, s). length s))"
    by simp
next
  fix w s :: string
  assume "w \<noteq> [] \<and> is_prefix w s"
  then show "((w, drop (length w) s), (w, s)) \<in> measure (\<lambda>(w, s). length s)"
    by (cases w; cases s) (auto simp: is_prefix_def)
qed

declare star_str.simps [simp del]

text \<open>\<open>(?:p)?\<close>: the group, then its omission, the capture then being \<open>None\<close>.\<close>

definition optional :: "'a matcher \<Rightarrow> 'a option matcher" where
  "optional p s = map (\<lambda>(g, r). (Some g, r)) (p s) @ [(None, s)]"

definition re_match :: "'a matcher \<Rightarrow> string \<Rightarrow> 'a option" where
  "re_match p s = (case p s of [] \<Rightarrow> None | (g, r) # rest \<Rightarrow> Some g)"

section \<open>Type wrappers\<close>

text \<open>
  The constructors of \<open>datetime\<close>: an argument beyond a C \<open>int\<close> raises \<open>OverflowError\<close>,
  one out of range \<open>ValueError\<close>. Called with \<open>*args\<close>, a wrong number of arguments is a
  \<open>TypeError\<close>.
\<close>

definition c_int_max :: int where
  "c_int_max = 2147483647"

definition is_leap :: "int \<Rightarrow> bool" where
  "is_leap y = (y mod 4 = 0 \<and> (y mod 100 \<noteq> 0 \<or> y mod 400 = 0))"

definition days_in_month :: "int \<Rightarrow> int \<Rightarrow> int" where
  "days_in_month y m =
     (if m = 2 then (if is_leap y then 29 else 28)
      else if m = 4 \<or> m = 6 \<or> m = 9 \<or> m = 11 then 30 else 31)"

definition valid_date :: "int \<Rightarrow> int \<Rightarrow> int \<Rightarrow> bool" where
  "valid_date y m d = (1 \<le> y \<and> y \<le> 9999 \<and> 1 \<le> m \<and> m \<le> 12 \<and> 1 \<le> d \<and> d \<le> days_in_month y m)"

definition valid_time :: "int \<Rightarrow> int \<Rightarrow> int \<Rightarrow> bool" where
  "valid_time h mi s = (0 \<le> h \<and> h \<le> 23 \<and> 0 \<le> mi \<and> mi \<le> 59 \<and> 0 \<le> s \<and> s \<le> 59)"

definition fits_c_int :: "int list \<Rightarrow> bool" where
  "fits_c_int args = list_all (\<lambda>a. - c_int_max - 1 \<le> a \<and> a \<le> c_int_max) args"

definition datetime_date :: "int list \<Rightarrow> error + py_value" where
  "datetime_date args =
     (case args of
        [y, m, d] \<Rightarrow>
          if \<not> fits_c_int args then Inl OverflowError
          else if valid_date y m d then Inr (PyDate y m d) else Inl ValueError
      | _ \<Rightarrow> Inl TypeError)"

definition datetime_datetime :: "int list \<Rightarrow> error + py_value" where
  "datetime_datetime args =
     (case args of
        [y, m, d, h, mi, s] \<Rightarrow>
          if \<not> fits_c_int args then Inl OverflowError
          else if valid_date y m d \<and> valid_time h mi s then Inr (PyDateTime y m d h mi s 0)
          else Inl ValueError
      | _ \<Rightarrow> Inl TypeError)"

definition datetime_time :: "int list \<Rightarrow> error + py_value" where
  "datetime_time args =
     (case args of
        [h, mi, s] \<Rightarrow>
          if \<not> fits_c_int args then Inl OverflowError
          else if valid_time h mi s then Inr (PyTime h mi s 0) else Inl ValueError
      | _ \<Rightarrow> Inl TypeError)"

text \<open>\<open>int(x or 0)\<close> for a captured group \<open>x\<close>.\<close>

definition int_or_0 :: "string \<Rightarrow> error + int" where
  "int_or_0 x = (if x = [] then Inr 0 else py_int x)"

text \<open>\<open>DatabendDate._reg\<close>: \<open>(\d+)-(\d+)-(\d+)\<close>; the result is \<open>m.groups()\<close>.\<close>

definition DatabendDate_reg :: "string list matcher" where
  "DatabendDate_reg =
     then_m (greedy_plus is_digit) (\<lambda>g1.
     then_m (lit_char CHR ''-'') (\<lambda>_.
     then_m (greedy_plus is_digit) (\<lambda>g2.
     then_m (lit_char CHR ''-'') (\<lambda>_.
     then_m (greedy_plus is_digit) (\<lambda>g3.
     return_m [g1, g2, g3])))))"

definition DatabendDate_process :: "py_value \<Rightarrow> error + py_value" where
  "DatabendDate_process v =
     (case v of
        PyStr s \<Rightarrow>
          (case re_match DatabendDate_reg s of
             None \<Rightarrow> Inl ValueError
           | Some groups \<Rightarrow>
               (case comprehension int_or_0 groups of
                  Inl e \<Rightarrow> Inl e
                | Inr args \<Rightarrow> datetime_date args))
      | _ \<Rightarrow> Inr v)"

text \<open>\<open>DatabendDateTime._reg\<close>: \<open>(\d+)-(\d+)-(\d+) (\d+):(\d+):(\d+)\<close>.\<close>

definition DatabendDateTime_reg :: "string list matcher" where
  "DatabendDateTime_reg =
     then_m (greedy_plus is_digit) (\<lambda>g1.
     then_m (lit_char CHR ''-'') (\<lambda>_.
     then_m (greedy_plus is_digit) (\<lambda>g2.
     then_m (lit_char CHR ''-'') (\<lambda>_.
     then_m (greedy_plus is_digit) (\<lambda>g3.
     then_m (lit_char CHR '' '') (\<lambda>_.
     then_m (greedy_plus is_digit) (\<lambda>g4.
     then_m (lit_char CHR '':'') (\<lambda>_.
     then_m (greedy_plus is_digit) (\<lambda>g5.
     then_m (lit_char CHR '':'') (\<lambda>_.
     then_m (greedy_plus is_digit) (\<lambda>g6.
     return_m [g1, g2, g3, g4, g5, g6])))))))))))"

definition DatabendDateTime_process :: "py_value \<Rightarrow> error + py_value" where
  "DatabendDateTime_process v =
     (case v of
        PyStr s \<Rightarrow>
          (case re_match DatabendDateTime_reg s of
             None \<Rightarrow> Inl ValueError
           | Some groups \<Rightarrow>
               (case comprehension int_or_0 groups of
                  Inl e \<Rightarrow> Inl e
                | Inr args \<Rightarrow> datetime_datetime args))
      | _ \<Rightarrow> Inr v)"

text \<open>
  \<open>DatabendTime._reg\<close>: \<open>(?:\d+)-(?:\d+)-(?:\d+) (\d+):(\d+):(\d+)\<close>; only the time of
  day is captured. A value that is neither \<open>None\<close> nor a string answers \<open>value.time()\<close>,
  which only a \<open>datetime\<close> has.
\<close>

definition DatabendTime_reg :: "string list matcher" where
  "DatabendTime_reg =
     then_m (greedy_plus is_digit) (\<lambda>_.
     then_m (lit_char CHR ''-'') (\<lambda>_.
     then_m (greedy_plus is_digit) (\<lambda>_.
     then_m (lit_char CHR ''-'') (\<lambda>_.
     then_m (greedy_plus is_digit) (\<lambda>_.
     then_m (lit_char CHR '' '') (\<lambda>_.
     then_m (greedy_plus is_digit) (\<lambda>g1.
     then_m (lit_char CHR '':'') (\<lambda>_.
     then_m (greedy_plus is_digit) (\<lambda>g2.
     then_m (lit_char CHR '':'') (\<lambda>_.
     then_m (greedy_plus is_digit) (\<lambda>g3.
     return_m [g1, g2, g3])))))))))))"

definition DatabendTime_process :: "py_value \<Rightarrow> error + py_value" where
  "DatabendTime_process v =
     (case v of
        PyNone \<Rightarrow> Inr PyNone
      | PyStr s \<Rightarrow>
          (case re_match DatabendTime_reg s of
             None \<Rightarrow> Inl ValueError
           | Some groups \<Rightarrow>
               (case comprehension int_or_0 groups of
                  Inl e \<Rightarrow> Inl e
                | Inr args \<Rightarrow> datetime_time args))
      | PyDateTime y m d h mi s us \<Rightarrow> Inr (PyTime h mi s us)
      | _ \<Rightarrow> Inl AttributeError)"

section \<open>Statement compiler\<close>

text \<open>
  Keyword arguments of a compile call; \<open>kw.get("deterministic", False)\<close> is the field
  \<open>deterministic\<close>. The rendering of a sub-expression (\<open>self.process\<close>,
  \<open>_compiler_dispatch\<close>) is the framework's and is a parameter.
\<close>

record compile_kw =
  deterministic :: bool

record 'e select_stmt =
  sel_limit_clause :: "'e option"
  sel_offset_clause :: "'e option"

definition limit_clause ::
  "(compile_kw \<Rightarrow> 'e \<Rightarrow> string) \<Rightarrow> 'e select_stmt \<Rightarrow> compile_kw \<Rightarrow> string" where
  "limit_clause process select kw =
     (let text0 = [];
          text1 = (case sel_limit_clause select of
                     Some l \<Rightarrow> text0 @ '' '' @ [newline] @ '' LIMIT '' @ process kw l
                   | None \<Rightarrow> text0);
          text2 = (case sel_offset_clause select of
                     Some off \<Rightarrow>
                       (if sel_limit_clause select = None then text1 @ [newline] else text1)
                         @ '' OFFSET '' @ process kw off
                   | None \<Rightarrow> text1)
      in text2)"

text \<open>\<open>sep.join(xs)\<close>.\<close>

fun join :: "string \<Rightarrow> string list \<Rightarrow> string" where
  "join sep [] = []"
| "join sep [x] = x"
| "join sep (x # y # ys) = x @ sep @ join sep (y # ys)"

text \<open>
  A match clause of a merge statement: an optional row predicate and the assignment
  dict, an association list in insertion order (\<open>dict.items()\<close>).
\<close>

record 'e merge_clause =
  clause_predicate :: "'e option"
  clause_set :: "(string \<times> 'e) list"

definition visit_when_merge_matched_update ::
  "(compile_kw \<Rightarrow> 'e \<Rightarrow> string) \<Rightarrow> (string \<Rightarrow> string) \<Rightarrow> 'e merge_clause \<Rightarrow> compile_kw \<Rightarrow> string" where
  "visit_when_merge_matched_update process quote merge_matched_update kw =
     (let case_predicate = (case clause_predicate merge_matched_update of
                              Some p \<Rightarrow> '' AND '' @ process kw p
                            | None \<Rightarrow> []);
          update_str = ''WHEN MATCHED'' @ case_predicate @ '' THEN'' @ [newline] @ [tab] @ ''UPDATE''
      in if clause_set merge_matched_update = [] then update_str @ '' *''
         else
           (let set_list = clause_set merge_matched_update;
                set_list = (if deterministic kw then sort_key fst set_list else set_list);
                set_values = join '', ''
                  (map (\<lambda>set_item. quote (fst set_item) @ '' = '' @ process kw (snd set_item)) set_list)
            in update_str @ '' SET '' @ set_values))"

definition visit_when_merge_matched_delete ::
  "(compile_kw \<Rightarrow> 'e \<Rightarrow> string) \<Rightarrow> 'e merge_clause \<Rightarrow> compile_kw \<Rightarrow> string" where
  "visit_when_merge_matched_delete process merge_matched_delete kw =
     (let case_predicate = (case clause_predicate merge_matched_delete of
                              Some p \<Rightarrow> '' AND '' @ process kw p
                            | None \<Rightarrow> [])
      in ''WHEN MATCHED'' @ case_predicate @ '' THEN DELETE'')"

definition visit_when_merge_unmatched ::
  "(compile_kw \<Rightarrow> 'e \<Rightarrow> string) \<Rightarrow> 'e merge_clause \<Rightarrow> compile_kw \<Rightarrow> string" where
  "visit_when_merge_unmatched process merge_unmatched kw =
     (let case_predicate = (case clause_predicate merge_unmatched of
                              Some p \<Rightarrow> '' AND '' @ process kw p
                            | None \<Rightarrow> []);
          insert_str = ''WHEN NOT MATCHED'' @ case_predicate @ '' THEN'' @ [newline] @ [tab] @ ''INSERT''
      in if clause_set merge_unmatched = [] then insert_str @ '' *''
         else
           (let items = (if deterministic kw then sort_key fst (clause_set merge_unmatched)
                         else clause_set merge_unmatched);
                set_cols = map fst items;
                sets_vals = map snd items
            in insert_str @ '' ('' @ join '', '' set_cols @ '') VALUES (''
                 @ join '', '' (map (process kw) sets_vals) @ '')''))"

section \<open>Connection arguments\<close>

text \<open>
  The URL object is SQLAlchemy's: every part may be \<open>None\<close>, and a query value is a
  string or, for a repeated key, a tuple of strings.
\<close>

datatype query_value = QStr string | QTuple "string list"

record url =
  username :: "string option"
  password :: "string option"
  host :: "string option"
  port :: "int option"
  database :: "string option"
  query :: "(string \<times> query_value) list"









section \<open>Reflection\<close>

definition get_foreign_keys ::
  "dialect \<Rightarrow> connection \<Rightarrow> string \<Rightarrow> string option \<Rightarrow> (error + 'a list) \<times> connection" where
  "get_foreign_keys self c table_name schema = (Inr [], c)"

definition get_pk_constraint ::
  "dialect \<Rightarrow> connection \<Rightarrow> string \<Rightarrow> string option \<Rightarrow> (error + 'a list) \<times> connection" where
  "get_pk_constraint self c table_name schema = (Inr [], c)"

definition get_indexes ::
  "dialect \<Rightarrow> connection \<Rightarrow> string \<Rightarrow> string option \<Rightarrow> (error + 'a list) \<times> connection" where
  "get_indexes self c table_name schema = (Inr [], c)"

text \<open>
  The type classes the catalog names resolve to. Their constructors are SQLAlchemy's
  and are a parameter, \<open>construct\<close>; \<open>MAP\<close> alone defines its own \<open>__init__\<close>, which takes
  exactly a key type and a value type.
\<close>

datatype sql_type =
    BIGINT | INTEGER | SMALLINT | NUMERIC | DECIMAL | FLOAT | VARCHAR | JSON | BOOLEAN | BINARY
  | ARRAY | MAP
  | DatabendDate | DatabendDateTime | DatabendTime | DatabendInterval

datatype type_instance = TypeInstance sql_type "int list"

definition ischema_names :: "(string \<times> sql_type) list" where
  "ischema_names =
     [(''bigint'', BIGINT),
      (''int'', INTEGER),
      (''smallint'', SMALLINT),
      (''tinyint'', SMALLINT),
      (''int64'', BIGINT),
      (''int32'', INTEGER),
      (''int16'', SMALLINT),
      (''int8'', SMALLINT),
      (''uint64'', BIGINT),
      (''uint32'', INTEGER),
      (''uint16'', SMALLINT),
      (''uint8'', SMALLINT),
      (''numeric'', NUMERIC),
      (''decimal'', DECIMAL),
      (''date'', DatabendDate),
      (''datetime'', DatabendDateTime),
      (''timestamp'', DatabendDateTime),
      (''float'', FLOAT),
      (''double'', FLOAT),
      (''float64'', FLOAT),
      (''float32'', FLOAT),
      (''string'', VARCHAR),
      (''array'', ARRAY),
      (''map'', MAP),
      (''json'', JSON),
      (''variant'', JSON),
      (''varchar'', VARCHAR),
      (''boolean'', BOOLEAN),
      (''binary'', BINARY),
      (''time'', DatabendTime),
      (''interval'', DatabendInterval)]"

definition instantiate ::
  "(sql_type \<Rightarrow> int list \<Rightarrow> error + type_instance) \<Rightarrow> sql_type \<Rightarrow> int list \<Rightarrow> error + type_instance" where
  "instantiate construct coltype args =
     (if coltype = MAP
      then (if length args = 2 then Inr (TypeInstance MAP args) else Inl TypeError)
      else construct coltype args)"

text \<open>
  The pattern of \<open>_get_column_type\<close>:
  \<open>(?:Nullable)*(?:\()*(\w+)(?:\((.*?)\))?(?:\))*\<close>, capturing the type name and,
  when the group takes part, the text between the parentheses.
\<close>

definition parenthesized :: "string matcher" where
  "parenthesized =
     then_m (lit_char CHR ''('') (\<lambda>_.
     then_m (lazy_star is_dot) (\<lambda>g.
     then_m (lit_char CHR '')'') (\<lambda>_.
     return_m g)))"

definition column_type_pattern :: "(string \<times> string option) matcher" where
  "column_type_pattern =
     then_m (star_str ''Nullable'') (\<lambda>_.
     then_m (greedy_star (\<lambda>c. c = CHR ''('')) (\<lambda>_.
     then_m (greedy_plus is_word) (\<lambda>g1.
     then_m (optional parenthesized) (\<lambda>g2.
     then_m (greedy_star (\<lambda>c. c = CHR '')'')) (\<lambda>_.
     return_m (g1, g2))))))"

text \<open>
  The constructor arguments read from the captured text; \<open>if charlen:\<close> holds of a
  captured, non-empty text.
\<close>

definition column_type_args :: "string \<Rightarrow> string option \<Rightarrow> error + int list" where
  "column_type_args type_str charlen =
     (if type_str = ''decimal''
      then (case charlen of
              None \<Rightarrow> Inr []
            | Some cl \<Rightarrow>
                if cl = [] then Inr []
                else (case str_split cl CHR '','' '' '' of
                        [prec, scale] \<Rightarrow> comprehension py_int [prec, scale]
                      | _ \<Rightarrow> Inl ValueError))
      else (case charlen of
              None \<Rightarrow> Inr []
            | Some cl \<Rightarrow> if cl = [] then Inr [] else comprehension py_int [cl]))"

definition get_column_type ::
  "(sql_type \<Rightarrow> int list \<Rightarrow> error + type_instance) \<Rightarrow> py_value \<Rightarrow> error + type_instance option" where
  "get_column_type construct column_type =
     (case column_type of
        PyStr s \<Rightarrow>
          (case re_match column_type_pattern s of
             Some (g1, charlen) \<Rightarrow>
               (let type_str = lower g1
                in case column_type_args type_str charlen of
                     Inl e \<Rightarrow> Inl e
                   | Inr args \<Rightarrow>
                       (case map_of ischema_names type_str of
                          None \<Rightarrow> Inl (KeyError type_str)
                        | Some coltype \<Rightarrow>
                            (case instantiate construct coltype args of
                               Inl e \<Rightarrow> Inl e
                             | Inr t \<Rightarrow> Inr (Some t))))
           | None \<Rightarrow> Inr None)
      | _ \<Rightarrow> Inl TypeError)"

definition get_is_nullable :: "py_value \<Rightarrow> bool" where
  "get_is_nullable column_is_nullable = (column_is_nullable = PyStr ''YES'')"

text \<open>The pattern of \<open>extract_nullable_string\<close>: \<open>Nullable\((\w+)(?:\((.*?)\))?\)\<close>.\<close>

definition nullable_pattern :: "(string \<times> string option) matcher" where
  "nullable_pattern =
     then_m (lit_str ''Nullable'') (\<lambda>_.
     then_m (lit_char CHR ''('') (\<lambda>_.
     then_m (greedy_plus is_word) (\<lambda>g1.
     then_m (optional parenthesized) (\<lambda>g2.
     then_m (lit_char CHR '')'') (\<lambda>_.
     return_m (g1, g2))))))"

definition extract_nullable_string :: "string \<Rightarrow> string" where
  "extract_nullable_string target =
     (if str_contains ''Nullable'' target
      then (case re_match nullable_pattern target of
              Some (g1, g2) \<Rightarrow> g1
            | None \<Rightarrow> [])
      else (let sl = str_split target CHR ''('' []
            in if length sl > 0 then sl ! 0 else target))"

text \<open>
  \<open>connection.scalar\<close>: the first column of the first row, \<open>None\<close> when there is no row.
\<close>

definition scalar :: "connection \<Rightarrow> string \<Rightarrow> (error + py_value) \<times> connection" where
  "scalar c q =
     (case execute c q [] of
        (Inl e, c1) \<Rightarrow> (Inl e, c1)
      | (Inr rows, c1) \<Rightarrow>
          (case rows of [] \<Rightarrow> (Inr PyNone, c1) | r # rest \<Rightarrow> (row_get r 0, c1)))"

text \<open>
  The pattern of \<open>_get_server_version_info\<close>:
  \<open>(?:.*)v(\d+).(\d+).(\d+)-([^\(]+)(?:\()\<close>; the dots between the numbers are
  unescaped and match any character but a newline.
\<close>

definition version_pattern :: "string list matcher" where
  "version_pattern =
     then_m (greedy_star is_dot) (\<lambda>_.
     then_m (lit_char CHR ''v'') (\<lambda>_.
     then_m (greedy_plus is_digit) (\<lambda>g1.
     then_m (one_char is_dot) (\<lambda>_.
     then_m (greedy_plus is_digit) (\<lambda>g2.
     then_m (one_char is_dot) (\<lambda>_.
     then_m (greedy_plus is_digit) (\<lambda>g3.
     then_m (lit_char CHR ''-'') (\<lambda>_.
     then_m (greedy_plus (\<lambda>c. c \<noteq> CHR ''('')) (\<lambda>g4.
     then_m (lit_char CHR ''('') (\<lambda>_.
     return_m [g1, g2, g3, g4]))))))))))"

definition version_error :: "string \<Rightarrow> error" where
  "version_error val =
     AssertionError (''Could not determine version from string '' @ [apostrophe] @ val @ [apostrophe])"

definition get_server_version_info :: "connection \<Rightarrow> (error + int list) \<times> connection" where
  "get_server_version_info c =
     (case scalar c ''SELECT VERSION()'' of
        (Inl e, c1) \<Rightarrow> (Inl e, c1)
      | (Inr val, c1) \<Rightarrow>
          (case val of
             PyStr s \<Rightarrow>
               (case re_match version_pattern s of
                  None \<Rightarrow> (Inl (version_error s), c1)
                | Some groups \<Rightarrow> (comprehension py_int (take 3 groups), c1))
           | _ \<Rightarrow> (Inl TypeError, c1)))"

text \<open>\<open>if schema is None: schema = self.default_schema_name\<close>.\<close>

definition schema_or_default :: "dialect \<Rightarrow> string option \<Rightarrow> string option" where
  "schema_or_default self schema = (case schema of None \<Rightarrow> default_schema_name self | Some s \<Rightarrow> Some s)"

definition has_table ::
  "dialect \<Rightarrow> connection \<Rightarrow> string \<Rightarrow> string option \<Rightarrow> (error + bool) \<times> connection" where
  "has_table self c table_name schema =
     (let schema = schema_or_default self schema
      in case quote_identifier self (Some table_name) of
           Inl e \<Rightarrow> (Inl e, c)
         | Inr quote_table_name \<Rightarrow>
             (case quote_identifier self schema of
                Inl e \<Rightarrow> (Inl e, c)
              | Inr quote_schema \<Rightarrow>
                  (let query = ''EXISTS TABLE '' @ quote_schema @ ''.'' @ quote_table_name
                   in case scalar c query of
                        (Inl e, c1) \<Rightarrow> (Inl e, c1)
                      | (Inr r, c1) \<Rightarrow> (Inr (r = PyInt 1), c1))))"

definition columns_query :: string where
  "columns_query =
     [newline] @ ''            select column_name, column_type, is_nullable''
     @ [newline] @ ''            from information_schema.columns''
     @ [newline] @ ''            where table_name = :table_name''
     @ [newline] @ ''            and table_schema = :schema_name''
     @ [newline] @ ''            ''"

text \<open>One entry of \<open>get_columns\<close>: the dict with the keys name, type, nullable, default.\<close>

record column_info =
  col_name :: py_value
  col_type :: "type_instance option"
  col_nullable :: bool
  col_default :: py_value

definition column_entry ::
  "(sql_type \<Rightarrow> int list \<Rightarrow> error + type_instance) \<Rightarrow> row \<Rightarrow> error + column_info" where
  "column_entry construct row =
     (case row_get row 0 of
        Inl e \<Rightarrow> Inl e
      | Inr n \<Rightarrow>
          (case row_get row 1 of
             Inl e \<Rightarrow> Inl e
           | Inr ty \<Rightarrow>
               (case get_column_type construct ty of
                  Inl e \<Rightarrow> Inl e
                | Inr t \<Rightarrow>
                    (case row_get row 2 of
                       Inl e \<Rightarrow> Inl e
                     | Inr nu \<Rightarrow>
                         Inr \<lparr>col_name = n, col_type = t, col_nullable = get_is_nullable nu,
                              col_default = PyNone\<rparr>))))"

definition get_columns ::
  "(sql_type \<Rightarrow> int list \<Rightarrow> error + type_instance) \<Rightarrow> dialect \<Rightarrow> connection \<Rightarrow> string
     \<Rightarrow> string option \<Rightarrow> (error + column_info list) \<times> connection" where
  "get_columns construct self c table_name schema =
     (let schema = schema_or_default self schema
      in case execute c columns_query [(''table_name'', Some table_name), (''schema_name'', schema)] of
           (Inl e, c1) \<Rightarrow> (Inl e, c1)
         | (Inr result, c1) \<Rightarrow>
             (case comprehension (column_entry construct) result of
                Inl e \<Rightarrow> (Inl e, c1)
              | Inr cols \<Rightarrow>
                  if cols = []
                  then (case has_table self c1 table_name schema of
                          (Inl e, c2) \<Rightarrow> (Inl e, c2)
                        | (Inr found, c2) \<Rightarrow>
                            if \<not> found then (Inl (NoSuchTableError table_name), c2)
                            else (Inr cols, c2))
                  else (Inr cols, c1)))"

definition table_name_query :: string where
  "table_name_query =
     [newline] @ ''            select table_name''
     @ [newline] @ ''            from information_schema.tables''
     @ [newline] @ ''            where table_schema = :schema_name''
     @ [newline] @ ''            and engine NOT LIKE '%VIEW%'' @ [apostrophe]
     @ [newline] @ ''            ''"

definition view_name_query_tables :: string where
  "view_name_query_tables =
     [newline] @ ''            select table_name''
     @ [newline] @ ''            from information_schema.tables''
     @ [newline] @ ''            where table_schema = :schema_name''
     @ [newline] @ ''            and engine LIKE '%VIEW%'' @ [apostrophe]
     @ [newline] @ ''        ''"

definition view_name_query_views :: string where
  "view_name_query_views =
     [newline] @ ''                select table_name''
     @ [newline] @ ''                from information_schema.views''
     @ [newline] @ ''                where table_schema = :schema_name''
     @ [newline] @ ''                ''"

text \<open>\<open>[row[0] for row in result]\<close>.\<close>

definition first_column :: "row list \<Rightarrow> error + py_value list" where
  "first_column result = comprehension (\<lambda>row. row_get row 0) result"

definition get_table_names ::
  "dialect \<Rightarrow> connection \<Rightarrow> string option \<Rightarrow> (error + py_value list) \<times> connection" where
  "get_table_names self c schema =
     (let schema = schema_or_default self schema
      in case execute c table_name_query [(''schema_name'', schema)] of
           (Inl e, c1) \<Rightarrow> (Inl e, c1)
         | (Inr result, c1) \<Rightarrow> (first_column result, c1))"

text \<open>Tuples compare as Python compares them, lexicographically.\<close>

definition get_view_names ::
  "dialect \<Rightarrow> connection \<Rightarrow> string option \<Rightarrow> (error + py_value list) \<times> connection" where
  "get_view_names self c schema =
     (let view_name_query =
            (if server_version_info self > [1, 2, 410] \<and> server_version_info self \<le> [1, 2, 566]
             then view_name_query_views else view_name_query_tables);
          schema = schema_or_default self schema
      in case execute c view_name_query [(''schema_name'', schema)] of
           (Inl e, c1) \<Rightarrow> (Inl e, c1)
         | (Inr result, c1) \<Rightarrow> (first_column result, c1))"

text \<open>
  \<open>get_view_definition\<close>. The \<open>except DBAPIError\<close> clause re-raises only when the
  message holds \<open>1025\<close>; otherwise the handler ends and the method returns \<open>None\<close>.
\<close>

definition get_view_definition ::
  "dialect \<Rightarrow> connection \<Rightarrow> string \<Rightarrow> string option \<Rightarrow> (error + py_value) \<times> connection" where
  "get_view_definition self c view_name schema =
     (let schema = schema_or_default self schema
      in case quote_identifier self schema of
           Inl e \<Rightarrow> (Inl e, c)
         | Inr quote_schema \<Rightarrow>
             (case quote_identifier self (Some view_name) of
                Inl e \<Rightarrow> (Inl e, c)
              | Inr quote_view_name \<Rightarrow>
                  (let full_view_name = quote_schema @ ''.'' @ quote_view_name
                   in case get_view_names self c schema of
                        (Inl e, c1) \<Rightarrow> (Inl e, c1)
                      | (Inr names, c1) \<Rightarrow>
                          if PyStr view_name \<notin> set names
                          then (Inl (NoSuchTableError full_view_name), c1)
                          else
                            (let query = ''SHOW CREATE TABLE '' @ full_view_name
                             in case execute c1 query [] of
                                  (Inl (DBAPIError message), c2) \<Rightarrow>
                                    if str_contains ''1025'' message
                                    then (Inl (NoSuchTableError full_view_name), c2)
                                    else (Inr PyNone, c2)
                                | (Inl e, c2) \<Rightarrow> (Inl e, c2)
                                | (Inr rows, c2) \<Rightarrow>
                                    (case rows of
                                       [] \<Rightarrow> (Inl TypeError, c2)
                                     | view_def # rest \<Rightarrow> (row_get view_def 1, c2))))))"

section \<open>Shapes of date and time strings\<close>

text \<open>
  What the date pattern and the datetime pattern accept, said without the matcher: a
  string that begins with three (six) non-empty runs of digits, separated as in
  \<open>Y-M-D\<close> (\<open>Y-M-D H:M:S\<close>); anything may follow.
\<close>

definition all_digits :: "string \<Rightarrow> bool" where
  "all_digits x = (x \<noteq> [] \<and> list_all is_digit x)"

definition date_text :: "string \<Rightarrow> bool" where
  "date_text s =
     (\<exists>a b c rest. all_digits a \<and> all_digits b \<and> all_digits c
        \<and> s = a @ ''-'' @ b @ ''-'' @ c @ rest)"

definition datetime_text :: "string \<Rightarrow> bool" where
  "datetime_text s =
     (\<exists>a b c d e f rest. all_digits a \<and> all_digits b \<and> all_digits c
        \<and> all_digits d \<and> all_digits e \<and> all_digits f
        \<and> s = a @ ''-'' @ b @ ''-'' @ c @ '' '' @ d @ '':'' @ e @ '':'' @ f @ rest)"

text \<open>
  The version pattern as it is meant, said without the matcher: on the first line of
  the string, \<open>v\<close>, a number, a dot, a number, a dot, a number, \<open>-\<close>, a non-empty text
  without \<open>(\<close>, and \<open>(\<close>.
\<close>

definition version_text :: "string \<Rightarrow> bool" where
  "version_text s =
     (\<exists>pre a b c tag rest.
        newline \<notin> set pre \<and> all_digits a \<and> all_digits b \<and> all_digits c
        \<and> tag \<noteq> [] \<and> CHR ''('' \<notin> set tag
        \<and> s = pre @ ''v'' @ a @ ''.'' @ b @ ''.'' @ c @ ''-'' @ tag @ ''('' @ rest)"

text \<open>
  The same shape with another character of the line in the place of one of the dots, or
  of both.
\<close>

definition dot_replaced_text :: "string \<Rightarrow> bool" where
  "dot_replaced_text s =
     (\<exists>pre a x b y c tag rest.
        newline \<notin> set pre \<and> all_digits a \<and> x \<noteq> newline \<and> all_digits b \<and> y \<noteq> newline
        \<and> all_digits c \<and> tag \<noteq> [] \<and> CHR ''('' \<notin> set tag
        \<and> (x \<noteq> CHR ''.'' \<or> y \<noteq> CHR ''.'')
        \<and> s = pre @ ''v'' @ a @ [x] @ b @ [y] @ c @ ''-'' @ tag @ ''('' @ rest)"

text \<open>Both together: any character of the line between the numbers.\<close>

definition accepted_text :: "string \<Rightarrow> bool" where
  "accepted_text s =
     (\<exists>pre a x b y c tag rest.
        newline \<notin> set pre \<and> all_digits a \<and> x \<noteq> newline \<and> all_digits b \<and> y \<noteq> newline
        \<and> all_digits c \<and> tag \<noteq> [] \<and> CHR ''('' \<notin> set tag
        \<and> s = pre @ ''v'' @ a @ [x] @ b @ [y] @ c @ ''-'' @ tag @ ''('' @ rest)"

section \<open>Example inputs\<close>

text \<open>
  A preparer that leaves an identifier as it is and, like SQLAlchemy's, fails on
  \<open>None\<close>; constructors that accept every argument list; a connection that answers
  every statement with the same rows.
\<close>

definition plain_quote :: "string option \<Rightarrow> error + string" where
  "plain_quote x = (case x of None \<Rightarrow> Inl AttributeError | Some s \<Rightarrow> Inr s)"

definition plain_construct :: "sql_type \<Rightarrow> int list \<Rightarrow> error + type_instance" where
  "plain_construct coltype args = Inr (TypeInstance coltype args)"

definition example_dialect :: dialect where
  "example_dialect =
     \<lparr>default_schema_name = Some ''default'', server_version_info = [1, 2, 700],
      quote_identifier = plain_quote\<rparr>"

definition answering :: "row list \<Rightarrow> connection" where
  "answering rows = \<lparr>respond = (\<lambda>statement. Inr rows), issued = []\<rparr>"

text \<open>
  A connection on which the view \<open>v\<close> is listed and every statement without bound
  parameters, \<open>SHOW CREATE TABLE\<close> among them, fails with a driver error.
\<close>

definition dropping_connection :: connection where
  "dropping_connection =
     \<lparr>respond = (\<lambda>(q, params). if params = [] then Inl (DBAPIError ''connection reset'')
                                else Inr [[PyStr ''v'']]),
      issued = []\<rparr>"

section \<open>Verified properties\<close>

subsection \<open>LIMIT and OFFSET\<close>

text \<open>
  C8. The limit clause of a select statement: with a limit, a newline followed by
  \<open>LIMIT n\<close> (the text is space, newline, space, \<open>LIMIT\<close>, space, n); with an offset as
  well, \<open>OFFSET m\<close> follows in the same clause; with an offset and no limit, the text
  begins with a newline, before \<open>OFFSET m\<close>; with neither, the clause is empty.
\<close>

theorem limit_clause_cases:
  "limit_clause process \<lparr>sel_limit_clause = Some l, sel_offset_clause = None\<rparr> kw
     = '' '' @ [newline] @ '' LIMIT '' @ process kw l
   \<and> limit_clause process \<lparr>sel_limit_clause = Some l, sel_offset_clause = Some off\<rparr> kw
     = '' '' @ [newline] @ '' LIMIT '' @ process kw l @ '' OFFSET '' @ process kw off
   \<and> limit_clause process \<lparr>sel_limit_clause = None, sel_offset_clause = Some off\<rparr> kw
     = [newline] @ '' OFFSET '' @ process kw off
   \<and> limit_clause process \<lparr>sel_limit_clause = None, sel_offset_clause = None\<rparr> kw = []"
  by (simp add: limit_clause_def)

subsection \<open>Merge match clauses\<close>

lemma sort_key_fst_sorted: "sorted (map fst (sort_key fst xs))"
  by simp

lemma sort_key_fst_mset: "mset (sort_key fst xs) = mset xs"
  by simp

lemma join_butlast:
  "xs \<noteq> [] \<Longrightarrow> join sep xs = concat (map (\<lambda>x. x @ sep) (butlast xs)) @ last xs"
  by (induction sep xs rule: join.induct) simp_all

lemma sort_key_fst_nonempty: "sort_key fst (a # s) \<noteq> []"
proof
  assume "sort_key fst (a # s) = []"
  then have "length (sort_key fst (a # s)) = 0" by simp
  then show False by simp
qed

text \<open>
  C1. A matched-update clause with an empty assignment map renders \<open>UPDATE *\<close> and an
  unmatched-insert clause with an empty map renders \<open>INSERT *\<close>. With a non-empty map
  the update clause renders \<open>UPDATE SET col = expr, ...\<close> and the insert clause
  \<open>INSERT (cols) VALUES (exprs)\<close>, every item but the last followed by a comma and a
  space, the assignments in the map's insertion order, or, when the compile keyword
  arguments carry the deterministic flag, sorted by column name (the same assignments,
  the column names ascending). So the map \<open>{b: 2, a: 1}\<close> renders
  \<open>UPDATE SET b = 2, a = 1\<close> and \<open>INSERT (b, a) VALUES (2, 1)\<close>, and with the flag
  \<open>UPDATE SET a = 1, b = 2\<close> and \<open>INSERT (a, b) VALUES (1, 2)\<close>.
\<close>

theorem merge_clause_rendering:
  fixes process :: "compile_kw \<Rightarrow> 'e \<Rightarrow> string"
  defines "pred_text kw p \<equiv> (case p of Some e \<Rightarrow> '' AND '' @ process kw e | None \<Rightarrow> [])"
  defines "ordered kw s \<equiv> (if deterministic kw then sort_key fst s else s)"
  defines "listed xs \<equiv> concat (map (\<lambda>x. x @ '', '') (butlast xs)) @ last xs"
  defines "plain \<equiv> (\<lambda>kw e. e)"
  defines "two \<equiv> [(''b'', ''2''), (''a'', ''1'')]"
  shows
  "visit_when_merge_matched_update process quote \<lparr>clause_predicate = p, clause_set = []\<rparr> kw
     = ''WHEN MATCHED'' @ pred_text kw p @ '' THEN'' @ [newline, tab] @ ''UPDATE *''
   \<and> visit_when_merge_unmatched process \<lparr>clause_predicate = p, clause_set = []\<rparr> kw
     = ''WHEN NOT MATCHED'' @ pred_text kw p @ '' THEN'' @ [newline, tab] @ ''INSERT *''
   \<and> visit_when_merge_matched_update process quote \<lparr>clause_predicate = p, clause_set = a # s\<rparr> kw
     = ''WHEN MATCHED'' @ pred_text kw p @ '' THEN'' @ [newline, tab] @ ''UPDATE SET ''
       @ listed (map (\<lambda>(col, e). quote col @ '' = '' @ process kw e) (ordered kw (a # s)))
   \<and> visit_when_merge_unmatched process \<lparr>clause_predicate = p, clause_set = a # s\<rparr> kw
     = ''WHEN NOT MATCHED'' @ pred_text kw p @ '' THEN'' @ [newline, tab] @ ''INSERT (''
       @ listed (map fst (ordered kw (a # s))) @ '') VALUES (''
       @ listed (map (\<lambda>(col, e). process kw e) (ordered kw (a # s))) @ '')''
   \<and> ordered (kw\<lparr>deterministic := False\<rparr>) (a # s) = a # s
   \<and> sorted (map fst (ordered (kw\<lparr>deterministic := True\<rparr>) (a # s)))
   \<and> mset (ordered (kw\<lparr>deterministic := True\<rparr>) (a # s)) = mset (a # s)
   \<and> visit_when_merge_matched_update plain (\<lambda>col. col)
        \<lparr>clause_predicate = None, clause_set = two\<rparr> \<lparr>deterministic = False\<rparr>
     = ''WHEN MATCHED THEN'' @ [newline, tab] @ ''UPDATE SET b = 2, a = 1''
   \<and> visit_when_merge_matched_update plain (\<lambda>col. col)
        \<lparr>clause_predicate = Some ''x > 0'', clause_set = two\<rparr> \<lparr>deterministic = True\<rparr>
     = ''WHEN MATCHED AND x > 0 THEN'' @ [newline, tab] @ ''UPDATE SET a = 1, b = 2''
   \<and> visit_when_merge_unmatched plain
        \<lparr>clause_predicate = None, clause_set = two\<rparr> \<lparr>deterministic = False\<rparr>
     = ''WHEN NOT MATCHED THEN'' @ [newline, tab] @ ''INSERT (b, a) VALUES (2, 1)''
   \<and> visit_when_merge_unmatched plain
        \<lparr>clause_predicate = Some ''x > 0'', clause_set = two\<rparr> \<lparr>deterministic = True\<rparr>
     = ''WHEN NOT MATCHED AND x > 0 THEN'' @ [newline, tab] @ ''INSERT (a, b) VALUES (1, 2)''"
proof -
  have ne: "ordered kw (a # s) \<noteq> []"
    unfolding ordered_def using sort_key_fst_nonempty [of a s] by simp
  have u0: "visit_when_merge_matched_update process quote \<lparr>clause_predicate = p, clause_set = []\<rparr> kw
     = ''WHEN MATCHED'' @ pred_text kw p @ '' THEN'' @ [newline, tab] @ ''UPDATE *''"
    by (simp add: visit_when_merge_matched_update_def pred_text_def split: option.split)
  have i0: "visit_when_merge_unmatched process \<lparr>clause_predicate = p, clause_set = []\<rparr> kw
     = ''WHEN NOT MATCHED'' @ pred_text kw p @ '' THEN'' @ [newline, tab] @ ''INSERT *''"
    by (simp add: visit_when_merge_unmatched_def pred_text_def split: option.split)
  have u1j: "visit_when_merge_matched_update process quote \<lparr>clause_predicate = p, clause_set = a # s\<rparr> kw
     = ''WHEN MATCHED'' @ pred_text kw p @ '' THEN'' @ [newline, tab] @ ''UPDATE SET ''
       @ join '', '' (map (\<lambda>(col, e). quote col @ '' = '' @ process kw e) (ordered kw (a # s)))"
    by (simp add: visit_when_merge_matched_update_def pred_text_def ordered_def Let_def
        case_prod_unfold split: option.split)
  have i1j: "visit_when_merge_unmatched process \<lparr>clause_predicate = p, clause_set = a # s\<rparr> kw
     = ''WHEN NOT MATCHED'' @ pred_text kw p @ '' THEN'' @ [newline, tab] @ ''INSERT (''
       @ join '', '' (map fst (ordered kw (a # s))) @ '') VALUES (''
       @ join '', '' (map (\<lambda>(col, e). process kw e) (ordered kw (a # s))) @ '')''"
    by (simp add: visit_when_merge_unmatched_def pred_text_def ordered_def Let_def
        case_prod_unfold comp_def split: option.split)
  have l: "join '', '' (map f (ordered kw (a # s))) = listed (map f (ordered kw (a # s)))" for f :: "string \<times> 'e \<Rightarrow> string"
    unfolding listed_def using ne by (intro join_butlast) simp
  have u1: "visit_when_merge_matched_update process quote \<lparr>clause_predicate = p, clause_set = a # s\<rparr> kw
     = ''WHEN MATCHED'' @ pred_text kw p @ '' THEN'' @ [newline, tab] @ ''UPDATE SET ''
       @ listed (map (\<lambda>(col, e). quote col @ '' = '' @ process kw e) (ordered kw (a # s)))"
    unfolding u1j l ..
  have i1: "visit_when_merge_unmatched process \<lparr>clause_predicate = p, clause_set = a # s\<rparr> kw
     = ''WHEN NOT MATCHED'' @ pred_text kw p @ '' THEN'' @ [newline, tab] @ ''INSERT (''
       @ listed (map fst (ordered kw (a # s))) @ '') VALUES (''
       @ listed (map (\<lambda>(col, e). process kw e) (ordered kw (a # s))) @ '')''"
    unfolding i1j l ..
  have o0: "ordered (kw\<lparr>deterministic := False\<rparr>) (a # s) = a # s"
    by (simp add: ordered_def)
  have o1: "sorted (map fst (ordered (kw\<lparr>deterministic := True\<rparr>) (a # s)))"
    unfolding ordered_def using sort_key_fst_sorted [of "a # s"] by simp
  have o2: "mset (ordered (kw\<lparr>deterministic := True\<rparr>) (a # s)) = mset (a # s)"
    unfolding ordered_def using sort_key_fst_mset [of "a # s"] by simp
  have e1: "visit_when_merge_matched_update plain (\<lambda>col. col)
        \<lparr>clause_predicate = None, clause_set = two\<rparr> \<lparr>deterministic = False\<rparr>
     = ''WHEN MATCHED THEN'' @ [newline, tab] @ ''UPDATE SET b = 2, a = 1''"
    by (simp add: visit_when_merge_matched_update_def plain_def two_def)
  have e2: "visit_when_merge_matched_update plain (\<lambda>col. col)
        \<lparr>clause_predicate = Some ''x > 0'', clause_set = two\<rparr> \<lparr>deterministic = True\<rparr>
     = ''WHEN MATCHED AND x > 0 THEN'' @ [newline, tab] @ ''UPDATE SET a = 1, b = 2''"
    by (simp add: visit_when_merge_matched_update_def plain_def two_def insort_key.simps)
  have e3: "visit_when_merge_unmatched plain
        \<lparr>clause_predicate = None, clause_set = two\<rparr> \<lparr>deterministic = False\<rparr>
     = ''WHEN NOT MATCHED THEN'' @ [newline, tab] @ ''INSERT (b, a) VALUES (2, 1)''"
    by (simp add: visit_when_merge_unmatched_def plain_def two_def)
  have e4: "visit_when_merge_unmatched plain
        \<lparr>clause_predicate = Some ''x > 0'', clause_set = two\<rparr> \<lparr>deterministic = True\<rparr>
     = ''WHEN NOT MATCHED AND x > 0 THEN'' @ [newline, tab] @ ''INSERT (a, b) VALUES (1, 2)''"
    by (simp add: visit_when_merge_unmatched_def plain_def two_def insort_key.simps)
  from u0 i0 u1 i1 o0 o1 o2 e1 e2 e3 e4 show ?thesis by blast
qed

subsection \<open>Connection arguments\<close>



subsection \<open>Keys and indexes\<close>

text \<open>
  C9. For every connection, table name and schema, \<open>get_foreign_keys\<close>,
  \<open>get_pk_constraint\<close> and \<open>get_indexes\<close> return the empty list; none raises, and none
  sends a statement: the connection comes back as it was.
\<close>

theorem no_keys_no_indexes:
  "get_foreign_keys self c table_name schema = (Inr [], c)
   \<and> get_pk_constraint self c table_name schema = (Inr [], c)
   \<and> get_indexes self c table_name schema = (Inr [], c)"
  by (simp add: get_foreign_keys_def get_pk_constraint_def get_indexes_def)

subsection \<open>Comprehensions and substrings\<close>

lemma comprehension_all_ok:
  "(\<And>x. x \<in> set xs \<Longrightarrow> f x = Inr (g x)) \<Longrightarrow> comprehension f xs = Inr (map g xs)"
  by (induction xs) auto

lemma first_column_nonempty:
  "(\<And>r. r \<in> set rows \<Longrightarrow> r \<noteq> []) \<Longrightarrow> first_column rows = Inr (map hd rows)"
  unfolding first_column_def
  by (rule comprehension_all_ok) (auto simp: row_get_def hd_conv_nth)

lemma str_contains_iff: "str_contains w s \<longleftrightarrow> (\<exists>a b. s = a @ w @ b)"
proof (induction s)
  case Nil
  then show ?case by auto
next
  case (Cons c cs)
  have "is_prefix w (c # cs) \<longleftrightarrow> (\<exists>b. c # cs = w @ b)"
    unfolding is_prefix_def
    by (metis append_eq_conv_conj append_take_drop_id)
  moreover have "(\<exists>a b. c # cs = a @ w @ b) \<longleftrightarrow> (\<exists>b. c # cs = w @ b) \<or> (\<exists>a b. cs = a @ w @ b)"
  proof
    assume "\<exists>a b. c # cs = a @ w @ b"
    then obtain a b where ab: "c # cs = a @ w @ b" by blast
    show "(\<exists>b. c # cs = w @ b) \<or> (\<exists>a b. cs = a @ w @ b)"
    proof (cases a)
      case Nil
      with ab show ?thesis by auto
    next
      case (Cons x a')
      with ab have "cs = a' @ w @ b" by simp
      then show ?thesis by blast
    qed
  next
    assume "(\<exists>b. c # cs = w @ b) \<or> (\<exists>a b. cs = a @ w @ b)"
    then show "\<exists>a b. c # cs = a @ w @ b"
    proof
      assume "\<exists>b. c # cs = w @ b"
      then obtain b where "c # cs = [] @ w @ b" by auto
      then show ?thesis by blast
    next
      assume "\<exists>a b. cs = a @ w @ b"
      then obtain a b where "c # cs = (c # a) @ w @ b" by auto
      then show ?thesis by blast
    qed
  qed
  ultimately show ?case using Cons.IH by simp
qed

subsection \<open>View definitions\<close>

text \<open>
  C2. \<open>get_view_definition\<close> raises the not-found error when the view is not among
  \<open>get_view_names\<close>, otherwise sends \<open>SHOW CREATE TABLE\<close> and returns the second
  column of the first row; a driver error whose message holds \<open>1025\<close> is re-raised as
  not-found, and every other driver error is to reach the caller unchanged. On a
  connection whose \<open>SHOW CREATE TABLE\<close> fails with the driver error
  \<open>connection reset\<close>, for a listed view, the method does not raise: it returns \<open>None\<close>.
\<close>

theorem get_view_definition_swallows_driver_error:
  "get_view_definition example_dialect dropping_connection ''v'' None
     = (Inr PyNone,
        dropping_connection\<lparr>issued :=
          [(view_name_query_tables, [(''schema_name'', Some ''default'')]),
           (''SHOW CREATE TABLE default.v'', [])]\<rparr>)
   \<and> respond dropping_connection (''SHOW CREATE TABLE default.v'', [])
       = Inl (DBAPIError ''connection reset'')
   \<and> \<not> str_contains ''1025'' ''connection reset''"
  by (simp add: get_view_definition_def get_view_names_def example_dialect_def
      dropping_connection_def schema_or_default_def plain_quote_def execute_def first_column_def
      row_get_def is_prefix_def)

subsection \<open>Table and view names\<close>

lemma table_query_text:
  "str_contains ''from information_schema.tables'' table_name_query
   \<and> str_contains (''engine NOT LIKE '%VIEW%'' @ [apostrophe]) table_name_query"
  unfolding str_contains_iff table_name_query_def
  apply (rule conjI)
   apply (rule exI [of _ "[newline] @ ''            select table_name'' @ [newline] @ ''            ''"])
   apply (rule exI [of _ "[newline] @ ''            where table_schema = :schema_name''
     @ [newline] @ ''            and engine NOT LIKE '%VIEW%'' @ [apostrophe]
     @ [newline] @ ''            ''"])
   apply simp
  apply (rule exI [of _ "[newline] @ ''            select table_name''
     @ [newline] @ ''            from information_schema.tables''
     @ [newline] @ ''            where table_schema = :schema_name''
     @ [newline] @ ''            and ''"])
  apply (rule exI [of _ "[newline] @ ''            ''"])
  apply simp
  done

lemma view_query_text:
  "str_contains ''from information_schema.tables'' view_name_query_tables
   \<and> str_contains (''engine LIKE '%VIEW%'' @ [apostrophe]) view_name_query_tables
   \<and> str_contains ''from information_schema.views'' view_name_query_views"
  unfolding str_contains_iff view_name_query_tables_def view_name_query_views_def
  apply (intro conjI)
    apply (rule exI [of _ "[newline] @ ''            select table_name'' @ [newline] @ ''            ''"])
    apply (rule exI [of _ "[newline] @ ''            where table_schema = :schema_name''
     @ [newline] @ ''            and engine LIKE '%VIEW%'' @ [apostrophe]
     @ [newline] @ ''        ''"])
    apply simp
   apply (rule exI [of _ "[newline] @ ''            select table_name''
     @ [newline] @ ''            from information_schema.tables''
     @ [newline] @ ''            where table_schema = :schema_name''
     @ [newline] @ ''            and ''"])
   apply (rule exI [of _ "[newline] @ ''        ''"])
   apply simp
  apply (rule exI [of _ "[newline] @ ''                select table_name'' @ [newline] @ ''                ''"])
  apply (rule exI [of _ "[newline] @ ''                where table_schema = :schema_name''
     @ [newline] @ ''                ''"])
  apply simp
  done

text \<open>
  C3. For every schema argument, \<open>None\<close> standing for the dialect's default schema,
  \<open>get_table_names\<close> sends one statement, the query of \<open>information_schema.tables\<close>
  with \<open>engine NOT LIKE '%VIEW%'\<close>, and returns the first column of the rows in row
  order; \<open>get_view_names\<close> does the same with \<open>engine LIKE '%VIEW%'\<close>, except that for a
  server version \<open>v\<close> with \<open>(1, 2, 410) < v \<le> (1, 2, 566)\<close> it queries
  \<open>information_schema.views\<close>. On the rows \<open>[("table1",), ("table2",)]\<close> each returns
  \<open>["table1", "table2"]\<close>.
\<close>

theorem table_and_view_names:
  fixes self :: dialect and c :: connection and schema :: "string option"
  defines "params \<equiv> [(''schema_name'', case schema of None \<Rightarrow> default_schema_name self | Some s \<Rightarrow> Some s)]"
  defines "view_query \<equiv>
             (if [1, 2, 410] < server_version_info self \<and> server_version_info self \<le> [1, 2, 566]
              then view_name_query_views else view_name_query_tables)"
  shows
  "snd (get_table_names self c schema) = c\<lparr>issued := issued c @ [(table_name_query, params)]\<rparr>
   \<and> snd (get_view_names self c schema) = c\<lparr>issued := issued c @ [(view_query, params)]\<rparr>
   \<and> (respond c (table_name_query, params) = Inr rows \<and> (\<forall>r \<in> set rows. r \<noteq> [])
        \<longrightarrow> fst (get_table_names self c schema) = Inr (map hd rows))
   \<and> (respond c (view_query, params) = Inr rows \<and> (\<forall>r \<in> set rows. r \<noteq> [])
        \<longrightarrow> fst (get_view_names self c schema) = Inr (map hd rows))
   \<and> str_contains ''from information_schema.tables'' table_name_query
   \<and> str_contains (''engine NOT LIKE '%VIEW%'' @ [apostrophe]) table_name_query
   \<and> str_contains ''from information_schema.tables'' view_name_query_tables
   \<and> str_contains (''engine LIKE '%VIEW%'' @ [apostrophe]) view_name_query_tables
   \<and> str_contains ''from information_schema.views'' view_name_query_views"
proof -
  have t1: "snd (get_table_names self c schema) = c\<lparr>issued := issued c @ [(table_name_query, params)]\<rparr>"
    by (simp add: get_table_names_def execute_def params_def schema_or_default_def Let_def
        split: sum.split)
  have v1: "snd (get_view_names self c schema) = c\<lparr>issued := issued c @ [(view_query, params)]\<rparr>"
    by (simp add: get_view_names_def execute_def params_def view_query_def schema_or_default_def
        Let_def split: sum.split)
  have t2: "fst (get_table_names self c schema) = Inr (map hd rows)"
    if "respond c (table_name_query, params) = Inr rows" "\<forall>r \<in> set rows. r \<noteq> []"
    using that first_column_nonempty [of rows]
    by (simp add: get_table_names_def execute_def params_def schema_or_default_def Let_def)
  have v2: "fst (get_view_names self c schema) = Inr (map hd rows)"
    if "respond c (view_query, params) = Inr rows" "\<forall>r \<in> set rows. r \<noteq> []"
    using that first_column_nonempty [of rows]
    by (simp add: get_view_names_def execute_def params_def view_query_def schema_or_default_def
        Let_def)
  from t1 v1 t2 v2 table_query_text view_query_text show ?thesis
    by blast
qed

theorem table_and_view_names_witness:
  "fst (get_table_names example_dialect (answering [[PyStr ''table1''], [PyStr ''table2'']]) None)
     = Inr [PyStr ''table1'', PyStr ''table2'']
   \<and> fst (get_view_names example_dialect (answering [[PyStr ''table1''], [PyStr ''table2'']]) None)
     = Inr [PyStr ''table1'', PyStr ''table2'']"
  using table_and_view_names [of example_dialect "answering [[PyStr ''table1''], [PyStr ''table2'']]"
      None "[[PyStr ''table1''], [PyStr ''table2'']]"]
  by (simp add: answering_def)

subsection \<open>Columns\<close>

lemma has_table_ignores_log:
  "fst (has_table self (c\<lparr>issued := l\<rparr>) table_name schema) = fst (has_table self c table_name schema)"
  by (simp add: has_table_def scalar_def execute_def Let_def split: sum.split list.split)

lemma column_entry_resolved:
  "get_column_type construct ty = Inr t \<Longrightarrow>
   column_entry construct [n, ty, nu]
     = Inr \<lparr>col_name = n, col_type = t, col_nullable = (nu = PyStr ''YES''), col_default = PyNone\<rparr>"
  by (simp add: column_entry_def row_get_def get_is_nullable_def)

lemma get_column_type_INT:
  "get_column_type construct (PyStr ''INT'')
     = (case construct INTEGER [] of Inl e \<Rightarrow> Inl e | Inr t \<Rightarrow> Inr (Some t))"
  by (simp add: get_column_type_def re_match_def column_type_pattern_def then_m_def return_m_def
      star_str.simps is_prefix_def greedy_plus_def is_word_def code_def optional_def parenthesized_def
      lit_char_def one_char_def lower_def lower_char_def char_of_eq_iff column_type_args_def
      ischema_names_def instantiate_def Let_def)

lemma get_column_type_date:
  "get_column_type construct (PyStr ''date'')
     = (case construct DatabendDate [] of Inl e \<Rightarrow> Inl e | Inr t \<Rightarrow> Inr (Some t))"
  by (simp add: get_column_type_def re_match_def column_type_pattern_def then_m_def return_m_def
      star_str.simps is_prefix_def greedy_plus_def is_word_def code_def optional_def parenthesized_def
      lit_char_def one_char_def lower_def lower_char_def char_of_eq_iff column_type_args_def
      ischema_names_def instantiate_def Let_def)

lemma get_column_type_bitmap:
  "get_column_type construct (PyStr ''bitmap'') = Inl (KeyError ''bitmap'')"
  by (simp add: get_column_type_def re_match_def column_type_pattern_def then_m_def return_m_def
      star_str.simps is_prefix_def greedy_plus_def is_word_def code_def optional_def parenthesized_def
      lit_char_def one_char_def lower_def lower_char_def char_of_eq_iff column_type_args_def
      ischema_names_def instantiate_def Let_def)

text \<open>
  C4, counterexample. A row whose type name is not a key of the type-name mapping:
  on the single row \<open>("c", "bitmap", "YES")\<close> the method returns no entry but raises
  \<open>KeyError\<close>.
\<close>

theorem get_columns_unknown_type_counterexample:
  "fst (get_columns plain_construct example_dialect
          (answering [[PyStr ''c'', PyStr ''bitmap'', PyStr ''YES'']]) ''t'' None)
     = Inl (KeyError ''bitmap'')"
  by (simp add: get_columns_def answering_def execute_def Let_def column_entry_def row_get_def
      get_column_type_bitmap)

lemma get_column_type_resolved:
  assumes "get_column_type construct ty = Inr (Some t)"
  shows "\<exists>s name charlen coltype args.
           ty = PyStr s \<and> re_match column_type_pattern s = Some (name, charlen)
           \<and> map_of ischema_names (lower name) = Some coltype
           \<and> column_type_args (lower name) charlen = Inr args
           \<and> instantiate construct coltype args = Inr t"
  using assms
  by (auto simp: get_column_type_def Let_def
      split: py_value.splits option.splits sum.splits prod.splits)

text \<open>
  C4. For every result of the columns query whose rows \<open>(name, type, is_nullable)\<close> all
  have a type that \<open>_get_column_type\<close> resolves to a wrapper instance, \<open>get_columns\<close>
  returns one entry per row, in row order, whose \<open>nullable\<close> is \<open>True\<close> exactly when
  \<open>is_nullable\<close> is the string \<open>YES\<close> and whose \<open>type\<close> is that instance: an instance of
  the class that the type-name mapping gives for the lower-cased type name (\<open>INT\<close>
  resolves to an \<open>INTEGER\<close>, \<open>date\<close> to a \<open>DatabendDate\<close>). With no rows it asks
  \<open>has_table\<close> and raises the not-found error exactly when \<open>has_table\<close> reports the table
  absent.
\<close>

theorem get_columns_entries:
  fixes self :: dialect and c :: connection and table_name :: string and schema :: "string option"
  defines "params \<equiv> [(''table_name'', Some table_name),
                       (''schema_name'', case schema of None \<Rightarrow> default_schema_name self | Some s \<Rightarrow> Some s)]"
  defines "entry \<equiv> (\<lambda>(n, ty, nu, t).
                      \<lparr>col_name = n, col_type = Some t, col_nullable = (nu = PyStr ''YES''),
                       col_default = PyNone\<rparr>)"
  assumes rows: "respond c (columns_query, params) = Inr (map (\<lambda>(n, ty, nu, t). [n, ty, nu]) xs)"
    and types: "\<forall>(n, ty, nu, t) \<in> set xs. get_column_type construct ty = Inr (Some t)"
  shows
  "fst (get_columns construct self c table_name schema)
     = (if xs \<noteq> [] then Inr (map entry xs)
        else (case fst (has_table self c table_name schema) of
                Inl e \<Rightarrow> Inl e
              | Inr found \<Rightarrow> if found then Inr [] else Inl (NoSuchTableError table_name)))
   \<and> (\<forall>found. fst (has_table self c table_name schema) = Inr found \<longrightarrow>
        (fst (get_columns construct self c table_name schema) = Inl (NoSuchTableError table_name))
          = (xs = [] \<and> \<not> found))
   \<and> (\<forall>(n, ty, nu, t) \<in> set xs.
        \<exists>s name charlen coltype args.
          ty = PyStr s \<and> re_match column_type_pattern s = Some (name, charlen)
          \<and> map_of ischema_names (lower name) = Some coltype
          \<and> column_type_args (lower name) charlen = Inr args
          \<and> instantiate construct coltype args = Inr t)
   \<and> get_column_type construct (PyStr ''INT'')
        = (case construct INTEGER [] of Inl e \<Rightarrow> Inl e | Inr t \<Rightarrow> Inr (Some t))
   \<and> get_column_type construct (PyStr ''date'')
        = (case construct DatabendDate [] of Inl e \<Rightarrow> Inl e | Inr t \<Rightarrow> Inr (Some t))"
proof -
  let ?rows = "map (\<lambda>(n, ty, nu, t). [n, ty, nu]) xs"
  have cols: "comprehension (column_entry construct) ?rows = Inr (map entry xs)"
    using types
  proof (induction xs)
    case Nil
    then show ?case by simp
  next
    case (Cons x xs)
    obtain n ty nu t where x: "x = (n, ty, nu, t)" by (cases x) auto
    with Cons.prems have "get_column_type construct ty = Inr (Some t)" by simp
    then have "column_entry construct [n, ty, nu] = Inr (entry x)"
      unfolding entry_def x by (simp add: column_entry_resolved)
    moreover have "comprehension (column_entry construct) (map (\<lambda>(n, ty, nu, t). [n, ty, nu]) xs)
                     = Inr (map entry xs)"
      using Cons by simp
    ultimately show ?case by (simp add: x)
  qed
  have main: "fst (get_columns construct self c table_name schema)
     = (if xs \<noteq> [] then Inr (map entry xs)
        else (case fst (has_table self c table_name schema) of
                Inl e \<Rightarrow> Inl e
              | Inr found \<Rightarrow> if found then Inr [] else Inl (NoSuchTableError table_name)))"
  proof (cases "xs = []")
    case True
    have "fst (has_table self (c\<lparr>issued := issued c @ [(columns_query, params)]\<rparr>) table_name
               (schema_or_default self schema))
            = fst (has_table self c table_name schema)"
      unfolding has_table_ignores_log
      by (cases schema; cases "default_schema_name self")
        (simp_all add: has_table_def schema_or_default_def)
    then show ?thesis
      using rows True
      by (simp add: get_columns_def execute_def Let_def params_def schema_or_default_def
          split: prod.split sum.split) (auto split: if_splits)
  next
    case False
    then show ?thesis
      using rows cols
      by (simp add: get_columns_def execute_def Let_def params_def schema_or_default_def)
  qed
  have iff: "\<forall>found. fst (has_table self c table_name schema) = Inr found \<longrightarrow>
        (fst (get_columns construct self c table_name schema) = Inl (NoSuchTableError table_name))
          = (xs = [] \<and> \<not> found)"
    unfolding main by auto
  have res: "\<forall>(n, ty, nu, t) \<in> set xs.
        \<exists>s name charlen coltype args.
          ty = PyStr s \<and> re_match column_type_pattern s = Some (name, charlen)
          \<and> map_of ischema_names (lower name) = Some coltype
          \<and> column_type_args (lower name) charlen = Inr args
          \<and> instantiate construct coltype args = Inr t"
  proof (clarify)
    fix n ty nu t
    assume "(n, ty, nu, t) \<in> set xs"
    with types have "get_column_type construct ty = Inr (Some t)" by auto
    then show "\<exists>s name charlen coltype args.
          ty = PyStr s \<and> re_match column_type_pattern s = Some (name, charlen)
          \<and> map_of ischema_names (lower name) = Some coltype
          \<and> column_type_args (lower name) charlen = Inr args
          \<and> instantiate construct coltype args = Inr t"
      by (rule get_column_type_resolved)
  qed
  from main iff res get_column_type_INT get_column_type_date show ?thesis
    by blast
qed

theorem get_columns_entries_witness:
  "fst (get_columns plain_construct example_dialect
          (answering [[PyStr ''name1'', PyStr ''INT'', PyStr ''YES''],
                      [PyStr ''name2'', PyStr ''date'', PyStr ''NO'']]) ''table'' None)
     = Inr [\<lparr>col_name = PyStr ''name1'', col_type = Some (TypeInstance INTEGER []),
             col_nullable = True, col_default = PyNone\<rparr>,
            \<lparr>col_name = PyStr ''name2'', col_type = Some (TypeInstance DatabendDate []),
             col_nullable = False, col_default = PyNone\<rparr>]"
  using get_columns_entries [where c = "answering [[PyStr ''name1'', PyStr ''INT'', PyStr ''YES''],
                      [PyStr ''name2'', PyStr ''date'', PyStr ''NO'']]" and table_name = "''table''"
      and schema = None and self = example_dialect and construct = plain_construct
      and xs = "[(PyStr ''name1'', PyStr ''INT'', PyStr ''YES'', TypeInstance INTEGER []),
        (PyStr ''name2'', PyStr ''date'', PyStr ''NO'', TypeInstance DatabendDate [])]"]
  by (simp add: answering_def get_column_type_INT get_column_type_date plain_construct_def)

subsection \<open>Matchers\<close>

lemma in_return_m: "(b, r') \<in> set (return_m a s) \<longleftrightarrow> b = a \<and> r' = s"
  by (auto simp: return_m_def)

lemma in_then_m:
  "(b, r') \<in> set (then_m p f s) \<longleftrightarrow> (\<exists>a r. (a, r) \<in> set (p s) \<and> (b, r') \<in> set (f a r))"
  by (auto simp: then_m_def)

lemma in_one_char: "(m, r) \<in> set (one_char P s) \<longleftrightarrow> (\<exists>c. m = [c] \<and> P c \<and> s = c # r)"
  by (auto simp: one_char_def split: list.splits if_splits)

lemma in_lit_char: "(m, r) \<in> set (lit_char c s) \<longleftrightarrow> m = [c] \<and> s = c # r"
  by (auto simp: lit_char_def in_one_char)

lemma in_lit_str: "(m, r) \<in> set (lit_str w s) \<longleftrightarrow> m = w \<and> s = w @ r"
  unfolding lit_str_def is_prefix_def
  by (auto simp: append_eq_conv_conj) (metis append_take_drop_id)

lemma in_greedy_star:
  "(m, r) \<in> set (greedy_star P s) \<longleftrightarrow> s = m @ r \<and> (\<forall>x \<in> set m. P x)"
proof (induction s arbitrary: m)
  case Nil
  then show ?case by auto
next
  case (Cons c cs)
  show ?case
  proof (cases m)
    case Nil
    then show ?thesis by auto
  next
    case (Cons y ys)
    then show ?thesis using Cons.IH [of ys] by auto
  qed
qed

lemma in_greedy_plus:
  "(m, r) \<in> set (greedy_plus P s) \<longleftrightarrow> s = m @ r \<and> m \<noteq> [] \<and> (\<forall>x \<in> set m. P x)"
proof (cases s)
  case Nil
  then show ?thesis by (auto simp: greedy_plus_def)
next
  case (Cons c cs)
  show ?thesis
  proof (cases m)
    case Nil
    then show ?thesis using Cons by (auto simp: greedy_plus_def)
  next
    case (Cons y ys)
    then show ?thesis using \<open>s = c # cs\<close> in_greedy_star [of ys r P cs]
      by (auto simp: greedy_plus_def)
  qed
qed

lemma in_lazy_star:
  "(m, r) \<in> set (lazy_star P s) \<longleftrightarrow> s = m @ r \<and> (\<forall>x \<in> set m. P x)"
  by (simp add: lazy_star_def in_greedy_star)

lemma in_optional:
  "(g, r) \<in> set (optional p s) \<longleftrightarrow> (g = None \<and> r = s) \<or> (\<exists>x. g = Some x \<and> (x, r) \<in> set (p s))"
  by (auto simp: optional_def)

lemma re_match_None: "re_match p s = None \<longleftrightarrow> p s = []"
  by (simp add: re_match_def split: list.split prod.split)

lemma re_match_hd: "p s \<noteq> [] \<Longrightarrow> re_match p s = Some (fst (hd (p s)))"
  by (cases "p s") (auto simp: re_match_def)

text \<open>
  After a greedy repetition of \<open>P\<close>, a continuation that fails on every rest that
  begins with a \<open>P\<close> character can only succeed on the longest repetition: the
  backtracking to shorter ones changes nothing.
\<close>

lemma greedy_star_longest:
  "(\<And>m x r. P x \<Longrightarrow> G m (x # r) = []) \<Longrightarrow>
   then_m (greedy_star P) G s = G (takeWhile P s) (dropWhile P s)"
proof (induction s arbitrary: G)
  case Nil
  then show ?case by (simp add: then_m_def)
next
  case (Cons c cs)
  show ?case
  proof (cases "P c")
    case True
    have "then_m (greedy_star P) G (c # cs)
            = then_m (greedy_star P) (\<lambda>m. G (c # m)) cs @ G [] (c # cs)"
      using True by (simp add: then_m_def comp_def case_prod_unfold)
    also have "then_m (greedy_star P) (\<lambda>m. G (c # m)) cs = G (c # takeWhile P cs) (dropWhile P cs)"
      using Cons.IH [of "\<lambda>m. G (c # m)"] Cons.prems by simp
    also have "G [] (c # cs) = []"
      using Cons.prems True by simp
    finally show ?thesis using True by simp
  next
    case False
    then show ?thesis by (simp add: then_m_def)
  qed
qed

lemma greedy_plus_longest:
  assumes "\<And>m x r. P x \<Longrightarrow> G m (x # r) = []"
  shows "then_m (greedy_plus P) G s
           = (if takeWhile P s = [] then [] else G (takeWhile P s) (dropWhile P s))"
proof (cases s)
  case Nil
  then show ?thesis by (simp add: then_m_def greedy_plus_def)
next
  case (Cons c cs)
  show ?thesis
  proof (cases "P c")
    case True
    have "then_m (greedy_plus P) G (c # cs) = then_m (greedy_star P) (\<lambda>m. G (c # m)) cs"
      using True by (simp add: then_m_def greedy_plus_def comp_def case_prod_unfold)
    also have "\<dots> = G (c # takeWhile P cs) (dropWhile P cs)"
      using greedy_star_longest [of P "\<lambda>m. G (c # m)" cs] assms by simp
    finally show ?thesis using True Cons by simp
  next
    case False
    then show ?thesis using Cons by (simp add: then_m_def greedy_plus_def)
  qed
qed

lemma lit_char_Cons: "lit_char c (x # r) = (if x = c then [([c], r)] else [])"
  by (auto simp: lit_char_def one_char_def)

lemma lit_char_Nil: "lit_char c [] = []"
  by (simp add: lit_char_def one_char_def)

lemma then_lit_char_Cons:
  "then_m (lit_char c) K (x # r) = (if x = c then K [c] r else [])"
  by (simp add: then_m_def lit_char_Cons)

lemma then_lit_char_Nil: "then_m (lit_char c) K [] = []"
  by (simp add: then_m_def lit_char_Nil)

lemma plus_then_lit:
  assumes "\<not> P c"
  shows "then_m (greedy_plus P) (\<lambda>m. then_m (lit_char c) (K m)) s
           = (case dropWhile P s of
                [] \<Rightarrow> []
              | d # r \<Rightarrow> if d = c \<and> takeWhile P s \<noteq> [] then K (takeWhile P s) [c] r else [])"
proof -
  have step: "then_m (greedy_plus P) (\<lambda>m. then_m (lit_char c) (K m)) s
          = (if takeWhile P s = [] then []
             else then_m (lit_char c) (K (takeWhile P s)) (dropWhile P s))"
    by (rule greedy_plus_longest) (use assms in \<open>auto simp: then_lit_char_Cons\<close>)
  show ?thesis
  proof (cases "dropWhile P s")
    case Nil
    show ?thesis unfolding step Nil by (simp add: then_lit_char_Nil)
  next
    case (Cons d r)
    show ?thesis unfolding step Cons by (simp add: then_lit_char_Cons)
  qed
qed

lemma plus_then_return:
  "then_m (greedy_plus P) (\<lambda>m. return_m (F m)) s
     = map (\<lambda>(m, r). (F m, r)) (greedy_plus P s)"
  by (simp add: then_m_def return_m_def case_prod_unfold)

subsection \<open>Numbers in strings\<close>

lemma digit_facts:
  "is_digit c \<Longrightarrow> \<not> is_space c"
  "is_digit c \<Longrightarrow> c \<noteq> CHR ''-''"
  "is_digit c \<Longrightarrow> c \<noteq> CHR ''+''"
  "is_digit c \<Longrightarrow> c \<noteq> CHR ''_''"
  "is_digit c \<Longrightarrow> c \<noteq> CHR '' ''"
  "is_digit c \<Longrightarrow> c \<noteq> CHR '':''"
  by (auto simp: is_digit_def is_space_def code_def)

lemma not_digit_separators:
  "\<not> is_digit CHR ''-''" "\<not> is_digit CHR '' ''" "\<not> is_digit CHR '':''"
  by (simp_all add: is_digit_def code_def)

lemma digits_tail_all: "list_all is_digit x \<Longrightarrow> digits_tail x"
  by (induction x) auto

lemma strip_digits:
  assumes "all_digits x"
  shows "strip x = x"
proof -
  from assms have ne: "x \<noteq> []" and all: "\<forall>c \<in> set x. is_digit c"
    by (auto simp: all_digits_def list_all_iff)
  then have "\<not> is_space (hd x)" and "\<not> is_space (last x)"
    by (auto simp: digit_facts)
  then have "dropWhile is_space x = x" and "dropWhile is_space (rev x) = rev x"
    using ne by (auto simp: dropWhile_eq_self_iff hd_rev)
  then show ?thesis by (simp add: strip_def)
qed

lemma py_int_digits:
  assumes "all_digits x"
  shows "py_int x = (if length x \<le> int_max_str_digits then Inr (decimal_value x) else Inl ValueError)"
proof -
  from assms obtain c cs where x: "x = c # cs" and c: "is_digit c" and cs: "list_all is_digit cs"
    by (cases x) (auto simp: all_digits_def)
  have f: "filter is_digit x = x"
    using c cs by (simp add: x list_all_iff)
  have v: "valid_int_body x"
    using c cs by (simp add: x valid_int_body_def digits_tail_all)
  show ?thesis
    unfolding py_int_def strip_digits [OF assms] Let_def
    using c f v by (simp add: x digit_facts)
qed

lemma int_or_0_digits: "all_digits x \<Longrightarrow> int_or_0 x = py_int x"
  by (auto simp: int_or_0_def all_digits_def)

lemma all_digits_append: "all_digits c \<Longrightarrow> all_digits (c @ takeWhile is_digit rest)"
  by (auto simp: all_digits_def list_all_iff dest: set_takeWhileD)

lemma comprehension_int_or_0:
  "list_all all_digits gs \<Longrightarrow> comprehension int_or_0 gs = comprehension py_int gs"
  by (induction gs) (auto simp: int_or_0_digits split: sum.split)

subsection \<open>The first match of the date and time patterns\<close>

lemma greedy_star_first:
  "\<exists>rest. greedy_star P s = (takeWhile P s, dropWhile P s) # rest"
  by (induction s) auto

lemma greedy_plus_first:
  "takeWhile P s \<noteq> [] \<Longrightarrow> \<exists>rest. greedy_plus P s = (takeWhile P s, dropWhile P s) # rest"
  using greedy_star_first [of P "tl s"]
  by (cases s) (auto simp: greedy_plus_def split: if_splits)

lemma re_match_last_group:
  assumes "takeWhile P s \<noteq> []"
  shows "re_match (then_m (greedy_plus P) (\<lambda>m. return_m (F m))) s = Some (F (takeWhile P s))"
proof -
  from greedy_plus_first [OF assms] obtain rest
    where "greedy_plus P s = (takeWhile P s, dropWhile P s) # rest" by blast
  then show ?thesis
    by (simp add: re_match_def plus_then_return)
qed

lemma digits_then:
  assumes "all_digits a" and "\<not> is_digit x"
  shows "takeWhile is_digit (a @ x # t) = a" and "dropWhile is_digit (a @ x # t) = x # t"
  using assms by (auto simp: all_digits_def list_all_iff takeWhile_append2 dropWhile_append2)

lemma digits_last:
  assumes "all_digits a"
  shows "takeWhile is_digit (a @ t) = a @ takeWhile is_digit t"
    and "takeWhile is_digit (a @ t) \<noteq> []"
  using assms by (auto simp: all_digits_def list_all_iff takeWhile_append2)

lemma date_reg_match:
  assumes "all_digits a" "all_digits b" "all_digits c"
  shows "re_match DatabendDate_reg (a @ ''-'' @ b @ ''-'' @ c @ rest)
           = Some [a, b, c @ takeWhile is_digit rest]"
proof -
  have "re_match DatabendDate_reg (a @ ''-'' @ b @ ''-'' @ c @ rest)
          = re_match (then_m (greedy_plus is_digit) (\<lambda>g3. return_m [a, b, g3])) (c @ rest)"
    using assms
    by (simp add: re_match_def DatabendDate_reg_def plus_then_lit not_digit_separators
        digits_then all_digits_def)
  also have "\<dots> = Some [a, b, c @ takeWhile is_digit rest]"
    using re_match_last_group [where P = is_digit and s = "c @ rest" and F = "\<lambda>g3. [a, b, g3]",
        OF digits_last(2) [OF assms(3)]]
    unfolding digits_last(1) [OF assms(3)] .
  finally show ?thesis .
qed

lemma date_reg_sound:
  assumes "DatabendDate_reg s \<noteq> []"
  shows "date_text s"
proof -
  from assms obtain g r where "(g, r) \<in> set (DatabendDate_reg s)"
    by (cases "DatabendDate_reg s") auto
  then obtain a b c where "s = a @ ''-'' @ b @ ''-'' @ c @ r"
    and "a \<noteq> []" "\<forall>x \<in> set a. is_digit x" "b \<noteq> []" "\<forall>x \<in> set b. is_digit x"
    "c \<noteq> []" "\<forall>x \<in> set c. is_digit x"
    unfolding DatabendDate_reg_def in_then_m in_greedy_plus in_lit_char in_return_m
    by auto
  then show ?thesis
    unfolding date_text_def all_digits_def list_all_iff by blast
qed

lemma datetime_reg_match:
  assumes "all_digits a" "all_digits b" "all_digits c" "all_digits d" "all_digits e" "all_digits f"
  shows "re_match DatabendDateTime_reg
           (a @ ''-'' @ b @ ''-'' @ c @ '' '' @ d @ '':'' @ e @ '':'' @ f @ rest)
           = Some [a, b, c, d, e, f @ takeWhile is_digit rest]"
proof -
  have "re_match DatabendDateTime_reg
           (a @ ''-'' @ b @ ''-'' @ c @ '' '' @ d @ '':'' @ e @ '':'' @ f @ rest)
          = re_match (then_m (greedy_plus is_digit) (\<lambda>g6. return_m [a, b, c, d, e, g6])) (f @ rest)"
    using assms
    by (simp add: re_match_def DatabendDateTime_reg_def plus_then_lit not_digit_separators
        digits_then all_digits_def)
  also have "\<dots> = Some [a, b, c, d, e, f @ takeWhile is_digit rest]"
    using re_match_last_group [where P = is_digit and s = "f @ rest"
        and F = "\<lambda>g6. [a, b, c, d, e, g6]", OF digits_last(2) [OF assms(6)]]
    unfolding digits_last(1) [OF assms(6)] .
  finally show ?thesis .
qed

lemma time_reg_match:
  assumes "all_digits a" "all_digits b" "all_digits c" "all_digits d" "all_digits e" "all_digits f"
  shows "re_match DatabendTime_reg
           (a @ ''-'' @ b @ ''-'' @ c @ '' '' @ d @ '':'' @ e @ '':'' @ f @ rest)
           = Some [d, e, f @ takeWhile is_digit rest]"
proof -
  have "re_match DatabendTime_reg
           (a @ ''-'' @ b @ ''-'' @ c @ '' '' @ d @ '':'' @ e @ '':'' @ f @ rest)
          = re_match (then_m (greedy_plus is_digit) (\<lambda>g3. return_m [d, e, g3])) (f @ rest)"
    using assms
    by (simp add: re_match_def DatabendTime_reg_def plus_then_lit not_digit_separators
        digits_then all_digits_def)
  also have "\<dots> = Some [d, e, f @ takeWhile is_digit rest]"
    using re_match_last_group [where P = is_digit and s = "f @ rest"
        and F = "\<lambda>g3. [d, e, g3]", OF digits_last(2) [OF assms(6)]]
    unfolding digits_last(1) [OF assms(6)] .
  finally show ?thesis .
qed

lemma datetime_reg_sound:
  assumes "DatabendDateTime_reg s \<noteq> []"
  shows "datetime_text s"
proof -
  from assms obtain g r where "(g, r) \<in> set (DatabendDateTime_reg s)"
    by (cases "DatabendDateTime_reg s") auto
  then obtain a b c d e f
    where "s = a @ ''-'' @ b @ ''-'' @ c @ '' '' @ d @ '':'' @ e @ '':'' @ f @ r"
    and "a \<noteq> []" "\<forall>x \<in> set a. is_digit x" "b \<noteq> []" "\<forall>x \<in> set b. is_digit x"
    "c \<noteq> []" "\<forall>x \<in> set c. is_digit x" "d \<noteq> []" "\<forall>x \<in> set d. is_digit x"
    "e \<noteq> []" "\<forall>x \<in> set e. is_digit x" "f \<noteq> []" "\<forall>x \<in> set f. is_digit x"
    unfolding DatabendDateTime_reg_def in_then_m in_greedy_plus in_lit_char in_return_m
    by auto
  then show ?thesis
    unfolding datetime_text_def all_digits_def list_all_iff by blast
qed

lemma time_reg_sound:
  assumes "DatabendTime_reg s \<noteq> []"
  shows "datetime_text s"
proof -
  from assms obtain g r where "(g, r) \<in> set (DatabendTime_reg s)"
    by (cases "DatabendTime_reg s") auto
  then obtain a b c d e f
    where "s = a @ ''-'' @ b @ ''-'' @ c @ '' '' @ d @ '':'' @ e @ '':'' @ f @ r"
    and "a \<noteq> []" "\<forall>x \<in> set a. is_digit x" "b \<noteq> []" "\<forall>x \<in> set b. is_digit x"
    "c \<noteq> []" "\<forall>x \<in> set c. is_digit x" "d \<noteq> []" "\<forall>x \<in> set d. is_digit x"
    "e \<noteq> []" "\<forall>x \<in> set e. is_digit x" "f \<noteq> []" "\<forall>x \<in> set f. is_digit x"
    unfolding DatabendTime_reg_def in_then_m in_greedy_plus in_lit_char in_return_m
    by auto
  then show ?thesis
    unfolding datetime_text_def all_digits_def list_all_iff by blast
qed

lemma all_digits_hd: "all_digits a \<Longrightarrow> is_digit (hd (a @ t)) \<and> a @ t \<noteq> []"
  by (cases a) (auto simp: all_digits_def)

lemma date_text_starts_with_digit: "date_text s \<Longrightarrow> s \<noteq> [] \<and> is_digit (hd s)"
  unfolding date_text_def using all_digits_hd by blast

lemma datetime_text_starts_with_digit: "datetime_text s \<Longrightarrow> s \<noteq> [] \<and> is_digit (hd s)"
  unfolding datetime_text_def using all_digits_hd by blast

subsection \<open>Date, datetime and time values\<close>

text \<open>
  C10, counterexample. \<open>2024-13-01\<close> matches the date pattern, and the parser raises
  \<open>ValueError\<close> all the same: there is no thirteenth month.
\<close>

theorem date_month_13_counterexample:
  "re_match DatabendDate_reg ''2024-13-01'' = Some [''2024'', ''13'', ''01'']
   \<and> DatabendDate_process (PyStr ''2024-13-01'') = Inl ValueError"
  by (simp add: DatabendDate_process_def re_match_def DatabendDate_reg_def then_m_def return_m_def
      greedy_plus_def lit_char_def one_char_def is_digit_def code_def int_or_0_def py_int_def strip_def
      is_space_def valid_int_body_def int_max_str_digits_def decimal_value_def digit_value_def
      datetime_date_def fits_c_int_def c_int_max_def valid_date_def days_in_month_def is_leap_def)

text \<open>
  C10. The date, datetime and time parsers match their pattern as a prefix of the
  string. On a string that begins with the digits-and-separators shape, the value is
  built from the matched prefix alone: the captured numbers are those of the shape,
  the last one running on through the digits that follow, and nothing after them is
  read (\<open>2024-1-2X\<close> is the date 2024-01-02). The result is what the \<open>datetime\<close>
  constructor makes of these numbers: the value when they form a date or time, and
  otherwise its exception. On a string with no such prefix the parser raises
  \<open>ValueError\<close>.
\<close>

theorem result_processors_parse_prefix:
  "(all_digits a \<and> all_digits b \<and> all_digits c \<longrightarrow>
      DatabendDate_process (PyStr (a @ ''-'' @ b @ ''-'' @ c @ rest))
        = (case comprehension py_int [a, b, c @ takeWhile is_digit rest] of
             Inl err \<Rightarrow> Inl err
           | Inr args \<Rightarrow> datetime_date args))
   \<and> (\<not> date_text s \<longrightarrow> DatabendDate_process (PyStr s) = Inl ValueError)
   \<and> (all_digits a \<and> all_digits b \<and> all_digits c \<and> all_digits d \<and> all_digits e \<and> all_digits f \<longrightarrow>
      DatabendDateTime_process
          (PyStr (a @ ''-'' @ b @ ''-'' @ c @ '' '' @ d @ '':'' @ e @ '':'' @ f @ rest))
        = (case comprehension py_int [a, b, c, d, e, f @ takeWhile is_digit rest] of
             Inl err \<Rightarrow> Inl err
           | Inr args \<Rightarrow> datetime_datetime args)
      \<and> DatabendTime_process
          (PyStr (a @ ''-'' @ b @ ''-'' @ c @ '' '' @ d @ '':'' @ e @ '':'' @ f @ rest))
        = (case comprehension py_int [d, e, f @ takeWhile is_digit rest] of
             Inl err \<Rightarrow> Inl err
           | Inr args \<Rightarrow> datetime_time args))
   \<and> (\<not> datetime_text s \<longrightarrow>
        DatabendDateTime_process (PyStr s) = Inl ValueError
        \<and> DatabendTime_process (PyStr s) = Inl ValueError)
   \<and> (all_digits a \<longrightarrow>
        py_int a = (if length a \<le> int_max_str_digits then Inr (decimal_value a) else Inl ValueError))"
proof -
  have date: "DatabendDate_process (PyStr (a @ ''-'' @ b @ ''-'' @ c @ rest))
        = (case comprehension py_int [a, b, c @ takeWhile is_digit rest] of
             Inl err \<Rightarrow> Inl err
           | Inr args \<Rightarrow> datetime_date args)"
    if "all_digits a" "all_digits b" "all_digits c"
  proof -
    have "list_all all_digits [a, b, c @ takeWhile is_digit rest]"
      using that by (simp add: all_digits_append)
    then show ?thesis
      unfolding DatabendDate_process_def
      by (simp only: py_value.case date_reg_match [OF that] option.case comprehension_int_or_0)
  qed
  have no_date: "DatabendDate_process (PyStr s) = Inl ValueError" if "\<not> date_text s"
  proof -
    from that have "DatabendDate_reg s = []" using date_reg_sound by blast
    then show ?thesis by (simp add: DatabendDate_process_def re_match_def)
  qed
  have datetime: "DatabendDateTime_process
          (PyStr (a @ ''-'' @ b @ ''-'' @ c @ '' '' @ d @ '':'' @ e @ '':'' @ f @ rest))
        = (case comprehension py_int [a, b, c, d, e, f @ takeWhile is_digit rest] of
             Inl err \<Rightarrow> Inl err
           | Inr args \<Rightarrow> datetime_datetime args)"
    if "all_digits a" "all_digits b" "all_digits c" "all_digits d" "all_digits e" "all_digits f"
  proof -
    have "list_all all_digits [a, b, c, d, e, f @ takeWhile is_digit rest]"
      using that by (simp add: all_digits_append)
    then show ?thesis
      unfolding DatabendDateTime_process_def
      by (simp only: py_value.case datetime_reg_match [OF that] option.case comprehension_int_or_0)
  qed
  have time: "DatabendTime_process
          (PyStr (a @ ''-'' @ b @ ''-'' @ c @ '' '' @ d @ '':'' @ e @ '':'' @ f @ rest))
        = (case comprehension py_int [d, e, f @ takeWhile is_digit rest] of
             Inl err \<Rightarrow> Inl err
           | Inr args \<Rightarrow> datetime_time args)"
    if "all_digits a" "all_digits b" "all_digits c" "all_digits d" "all_digits e" "all_digits f"
  proof -
    have "list_all all_digits [d, e, f @ takeWhile is_digit rest]"
      using that by (simp add: all_digits_append)
    then show ?thesis
      unfolding DatabendTime_process_def
      by (simp only: py_value.case time_reg_match [OF that] option.case comprehension_int_or_0)
  qed
  have no_datetime: "DatabendDateTime_process (PyStr s) = Inl ValueError
        \<and> DatabendTime_process (PyStr s) = Inl ValueError" if "\<not> datetime_text s"
  proof -
    from that have "DatabendDateTime_reg s = []" "DatabendTime_reg s = []"
      using datetime_reg_sound time_reg_sound by blast+
    then show ?thesis
      by (simp add: DatabendDateTime_process_def DatabendTime_process_def re_match_def)
  qed
  from date no_date datetime time no_datetime py_int_digits [of a] show ?thesis
    by blast
qed

lemma example_digits:
  "all_digits ''2024''" "all_digits ''1''" "all_digits ''2''"
  "all_digits ''3''" "all_digits ''4''" "all_digits ''5''"
  by (simp_all add: all_digits_def is_digit_def code_def)

lemma example_not_dates: "\<not> date_text ''X''" "\<not> datetime_text ''X''"
  using date_text_starts_with_digit [of "''X''"] datetime_text_starts_with_digit [of "''X''"]
  by (auto simp: is_digit_def code_def)

theorem result_processors_parse_prefix_witness:
  "DatabendDate_process (PyStr ''2024-1-2X'') = Inr (PyDate 2024 1 2)
   \<and> DatabendDate_process (PyStr ''X'') = Inl ValueError
   \<and> DatabendDateTime_process (PyStr ''2024-1-2 3:4:5X'') = Inr (PyDateTime 2024 1 2 3 4 5 0)
   \<and> DatabendTime_process (PyStr ''2024-1-2 3:4:5X'') = Inr (PyTime 3 4 5 0)
   \<and> DatabendDateTime_process (PyStr ''X'') = Inl ValueError
   \<and> DatabendTime_process (PyStr ''X'') = Inl ValueError
   \<and> py_int ''2024'' = Inr 2024"
  using result_processors_parse_prefix [of "''2024''" "''1''" "''2''" "''X''" "''X''" "''3''" "''4''" "''5''"]
    example_digits example_not_dates
  by (simp add: is_digit_def code_def py_int_def strip_def is_space_def
      valid_int_body_def int_max_str_digits_def decimal_value_def digit_value_def
      datetime_date_def datetime_datetime_def datetime_time_def fits_c_int_def c_int_max_def
      valid_date_def valid_time_def days_in_month_def is_leap_def)

subsection \<open>The version pattern\<close>

lemma version_pattern_sound:
  assumes "(g, r) \<in> set (version_pattern s)"
  shows "\<exists>pre a x b y c tag.
        newline \<notin> set pre \<and> all_digits a \<and> x \<noteq> newline \<and> all_digits b \<and> y \<noteq> newline
        \<and> all_digits c \<and> tag \<noteq> [] \<and> CHR ''('' \<notin> set tag
        \<and> s = pre @ ''v'' @ a @ [x] @ b @ [y] @ c @ ''-'' @ tag @ ''('' @ r
        \<and> g = [a, b, c, tag]"
  using assms
  unfolding version_pattern_def in_then_m in_greedy_plus in_greedy_star in_lit_char in_one_char
    in_return_m all_digits_def list_all_iff is_dot_def
  by (elim exE conjE) (simp, blast)

lemma then_star_I:
  "\<forall>x \<in> set m. P x \<Longrightarrow> (b, r') \<in> set (f m r) \<Longrightarrow> (b, r') \<in> set (then_m (greedy_star P) f (m @ r))"
  by (auto simp: in_then_m in_greedy_star)

lemma then_plus_I:
  "m \<noteq> [] \<Longrightarrow> \<forall>x \<in> set m. P x \<Longrightarrow> (b, r') \<in> set (f m r)
   \<Longrightarrow> (b, r') \<in> set (then_m (greedy_plus P) f (m @ r))"
  by (auto simp: in_then_m in_greedy_plus)

lemma then_lit_I:
  "(b, r') \<in> set (f [c] r) \<Longrightarrow> (b, r') \<in> set (then_m (lit_char c) f (c # r))"
  by (auto simp: in_then_m in_lit_char)

lemma then_one_I:
  "P c \<Longrightarrow> (b, r') \<in> set (f [c] r) \<Longrightarrow> (b, r') \<in> set (then_m (one_char P) f (c # r))"
  by (auto simp: in_then_m in_one_char)

lemma return_m_I: "(a, s) \<in> set (return_m a s)"
  by (simp add: in_return_m)

lemma version_pattern_complete:
  assumes "newline \<notin> set pre" "all_digits a" "x \<noteq> newline" "all_digits b" "y \<noteq> newline"
    "all_digits c" "tag \<noteq> []" "CHR ''('' \<notin> set tag"
  shows "([a, b, c, tag], r)
           \<in> set (version_pattern (pre @ CHR ''v'' # a @ x # b @ y # c @ CHR ''-'' # tag @ CHR ''('' # r))"
proof -
  have p: "\<forall>x \<in> set pre. is_dot x" and t: "\<forall>x \<in> set tag. x \<noteq> CHR ''(''"
    using assms by (auto simp: is_dot_def)
  have d: "a \<noteq> []" "\<forall>x \<in> set a. is_digit x" "b \<noteq> []" "\<forall>x \<in> set b. is_digit x"
    "c \<noteq> []" "\<forall>x \<in> set c. is_digit x"
    using assms by (auto simp: all_digits_def list_all_iff)
  have dots: "is_dot x" "is_dot y"
    using assms by (auto simp: is_dot_def)
  show ?thesis
    unfolding version_pattern_def
    apply (rule then_star_I [OF p])
    apply (rule then_lit_I)
    apply (rule then_plus_I [OF d(1,2)])
    apply (rule then_one_I, rule dots(1))
    apply (rule then_plus_I [OF d(3,4)])
    apply (rule then_one_I, rule dots(2))
    apply (rule then_plus_I [OF d(5,6)])
    apply (rule then_lit_I)
    apply (rule then_plus_I [OF assms(7) t])
    apply (rule then_lit_I)
    apply (rule return_m_I)
    done
qed

lemma version_pattern_empty_iff: "version_pattern s = [] \<longleftrightarrow> \<not> accepted_text s"
proof
  assume e: "version_pattern s = []"
  show "\<not> accepted_text s"
  proof
    assume "accepted_text s"
    then obtain pre a x b y c tag rest
      where "newline \<notin> set pre" "all_digits a" "x \<noteq> newline" "all_digits b" "y \<noteq> newline"
        "all_digits c" "tag \<noteq> []" "CHR ''('' \<notin> set tag"
        and s: "s = pre @ ''v'' @ a @ [x] @ b @ [y] @ c @ ''-'' @ tag @ ''('' @ rest"
      unfolding accepted_text_def by blast
    from version_pattern_complete [OF this(1-8), of rest]
    have "([a, b, c, tag], rest) \<in> set (version_pattern s)"
      by (simp add: s)
    with e show False by simp
  qed
next
  assume n: "\<not> accepted_text s"
  show "version_pattern s = []"
  proof (rule ccontr)
    assume "version_pattern s \<noteq> []"
    then obtain g r where "(g, r) \<in> set (version_pattern s)"
      by (cases "version_pattern s") auto
    from version_pattern_sound [OF this] have "accepted_text s"
      unfolding accepted_text_def by blast
    with n show False by simp
  qed
qed

lemma accepted_text_iff: "accepted_text s \<longleftrightarrow> version_text s \<or> dot_replaced_text s"
proof
  assume "accepted_text s"
  then obtain pre a x b y c tag rest
    where h: "newline \<notin> set pre" "all_digits a" "x \<noteq> newline" "all_digits b" "y \<noteq> newline"
      "all_digits c" "tag \<noteq> []" "CHR ''('' \<notin> set tag"
      and s: "s = pre @ ''v'' @ a @ [x] @ b @ [y] @ c @ ''-'' @ tag @ ''('' @ rest"
    unfolding accepted_text_def by blast
  show "version_text s \<or> dot_replaced_text s"
  proof (cases "x = CHR ''.'' \<and> y = CHR ''.''")
    case True
    with s have "s = pre @ ''v'' @ a @ ''.'' @ b @ ''.'' @ c @ ''-'' @ tag @ ''('' @ rest"
      by simp
    with h have "version_text s"
      unfolding version_text_def by blast
    then show ?thesis ..
  next
    case False
    then have "x \<noteq> CHR ''.'' \<or> y \<noteq> CHR ''.''" by simp
    with h s have "dot_replaced_text s"
      unfolding dot_replaced_text_def by blast
    then show ?thesis ..
  qed
next
  assume "version_text s \<or> dot_replaced_text s"
  then show "accepted_text s"
  proof
    assume "version_text s"
    then obtain pre a b c tag rest
      where h: "newline \<notin> set pre" "all_digits a" "all_digits b"
        "all_digits c" "tag \<noteq> []" "CHR ''('' \<notin> set tag"
        and s: "s = pre @ ''v'' @ a @ ''.'' @ b @ ''.'' @ c @ ''-'' @ tag @ ''('' @ rest"
      unfolding version_text_def by blast
    have d: "CHR ''.'' \<noteq> newline" by (simp add: newline_def)
    from s have "s = pre @ ''v'' @ a @ [CHR ''.''] @ b @ [CHR ''.''] @ c @ ''-'' @ tag @ ''('' @ rest"
      by simp
    with h d show "accepted_text s"
      unfolding accepted_text_def by blast
  next
    assume "dot_replaced_text s"
    then show "accepted_text s"
      unfolding dot_replaced_text_def accepted_text_def by blast
  qed
qed

text \<open>
  The greedy \<open>.*\<close> at the head of the pattern: the rests of the string are tried from
  the shortest to the longest, so the match found is the last one on the first line.
\<close>

lemma star_skip_Cons:
  "P x \<Longrightarrow> then_m (greedy_star P) (\<lambda>_. G) (x # t) = then_m (greedy_star P) (\<lambda>_. G) t @ G (x # t)"
  by (simp add: then_m_def comp_def case_prod_unfold)

lemma star_skip_stop:
  "\<not> P x \<Longrightarrow> then_m (greedy_star P) (\<lambda>_. G) (x # t) = G (x # t)"
  by (simp add: then_m_def)

lemma star_skip_others:
  "\<forall>x \<in> set m. P x \<and> x \<noteq> c \<Longrightarrow>
   then_m (greedy_star P) (\<lambda>_. then_m (lit_char c) K) (m @ t)
     = then_m (greedy_star P) (\<lambda>_. then_m (lit_char c) K) t"
proof (induction m)
  case Nil
  then show ?case by simp
next
  case (Cons x m)
  then have x: "P x" "x \<noteq> c"
    and ih: "then_m (greedy_star P) (\<lambda>_. then_m (lit_char c) K) (m @ t)
               = then_m (greedy_star P) (\<lambda>_. then_m (lit_char c) K) t"
    by auto
  have "then_m (greedy_star P) (\<lambda>_. then_m (lit_char c) K) (x # (m @ t))
          = then_m (greedy_star P) (\<lambda>_. then_m (lit_char c) K) (m @ t)
            @ then_m (lit_char c) K (x # (m @ t))"
    using x(1) by (rule star_skip_Cons)
  then show ?case
    using x(2) ih by (simp add: then_lit_char_Cons)
qed

lemma star_skip_prefix:
  "\<forall>x \<in> set pre. P x \<Longrightarrow>
   \<exists>later. then_m (greedy_star P) (\<lambda>_. G) (pre @ t) = then_m (greedy_star P) (\<lambda>_. G) t @ later"
proof (induction pre)
  case Nil
  then show ?case by simp
next
  case (Cons x pre)
  then obtain later
    where "then_m (greedy_star P) (\<lambda>_. G) (pre @ t) = then_m (greedy_star P) (\<lambda>_. G) t @ later"
    by auto
  then show ?case using Cons.prems by (simp add: star_skip_Cons)
qed

lemma version_tail:
  "then_m (lit_char CHR ''v'')
     (\<lambda>_. then_m (greedy_plus is_digit)
     (\<lambda>g1. then_m (one_char is_dot)
     (\<lambda>_. then_m (greedy_plus is_digit)
     (\<lambda>g2. then_m (one_char is_dot)
     (\<lambda>_. then_m (greedy_plus is_digit)
     (\<lambda>g3. then_m (lit_char CHR ''-'')
     (\<lambda>_. then_m (greedy_plus (\<lambda>c. c \<noteq> CHR ''(''))
     (\<lambda>g4. then_m (lit_char CHR ''('')
     (\<lambda>_. return_m [g1, g2, g3, g4]))))))))) (''v1.2.411-nightly('' @ suf)
   = [([''1'', ''2'', ''411'', ''nightly''], suf)]"
  by (simp add: then_m_def return_m_def greedy_plus_def lit_char_def one_char_def is_digit_def
      code_def is_dot_def newline_def)

lemma version_last_match:
  assumes "newline \<notin> set pre" and "version_pattern suf = []"
  shows "re_match version_pattern (pre @ ''v1.2.411-nightly('' @ suf)
           = Some [''1'', ''2'', ''411'', ''nightly'']"
proof -
  let ?K = "(\<lambda>_. then_m (greedy_plus is_digit)
     (\<lambda>g1. then_m (one_char is_dot)
     (\<lambda>_. then_m (greedy_plus is_digit)
     (\<lambda>g2. then_m (one_char is_dot)
     (\<lambda>_. then_m (greedy_plus is_digit)
     (\<lambda>g3. then_m (lit_char CHR ''-'')
     (\<lambda>_. then_m (greedy_plus (\<lambda>c. c \<noteq> CHR ''(''))
     (\<lambda>g4. then_m (lit_char CHR ''('')
     (\<lambda>_. return_m [g1, g2, g3, g4])))))))))"
  let ?G = "then_m (lit_char CHR ''v'') ?K"
  let ?m = "''1.2.411-nightly(''"
  have vp: "version_pattern = then_m (greedy_star is_dot) (\<lambda>_. ?G)"
    by (simp add: version_pattern_def)
  have "\<forall>x \<in> set ?m. is_dot x \<and> x \<noteq> CHR ''v''"
    by (simp add: is_dot_def newline_def)
  then have "then_m (greedy_star is_dot) (\<lambda>_. ?G) (?m @ suf)
               = then_m (greedy_star is_dot) (\<lambda>_. ?G) suf"
    by (rule star_skip_others)
  then have none: "then_m (greedy_star is_dot) (\<lambda>_. ?G) (?m @ suf) = []"
    using assms(2) unfolding vp by simp
  have "then_m (greedy_star is_dot) (\<lambda>_. ?G) (CHR ''v'' # ?m @ suf)
          = then_m (greedy_star is_dot) (\<lambda>_. ?G) (?m @ suf) @ ?G (CHR ''v'' # ?m @ suf)"
    by (rule star_skip_Cons) (simp add: is_dot_def newline_def)
  also have "\<dots> = [([''1'', ''2'', ''411'', ''nightly''], suf)]"
    unfolding none using version_tail [of suf] by simp
  finally have here: "then_m (greedy_star is_dot) (\<lambda>_. ?G) (CHR ''v'' # ?m @ suf)
                        = [([''1'', ''2'', ''411'', ''nightly''], suf)]" .
  have "\<forall>x \<in> set pre. is_dot x"
    using assms(1) by (auto simp: is_dot_def)
  from star_skip_prefix [where P = is_dot and pre = pre and G = ?G and t = "CHR ''v'' # ?m @ suf", OF this]
  obtain later
    where "then_m (greedy_star is_dot) (\<lambda>_. ?G) (pre @ CHR ''v'' # ?m @ suf)
             = then_m (greedy_star is_dot) (\<lambda>_. ?G) (CHR ''v'' # ?m @ suf) @ later"
    by blast
  then have "version_pattern (pre @ ''v1.2.411-nightly('' @ suf)
               = ([''1'', ''2'', ''411'', ''nightly''], suf) # later"
    unfolding vp here by simp
  then show ?thesis
    by (simp add: re_match_def)
qed

text \<open>Running a matcher on a string whose first character is known.\<close>

lemma then_one_char_Cons: "then_m (one_char P) K (x # r) = (if P x then K [x] r else [])"
  by (simp add: then_m_def one_char_def)

lemma then_one_char_Nil: "then_m (one_char P) K [] = []"
  by (simp add: then_m_def one_char_def)

lemma then_star_Cons:
  "then_m (greedy_star P) K (x # t)
     = (if P x then then_m (greedy_star P) (\<lambda>m. K (x # m)) t else []) @ K [] (x # t)"
  by (simp add: then_m_def comp_def case_prod_unfold)

lemma then_star_Nil: "then_m (greedy_star P) K [] = K [] []"
  by (simp add: then_m_def)

lemma then_plus_Cons:
  "then_m (greedy_plus P) K (x # t)
     = (if P x then then_m (greedy_star P) (\<lambda>m. K (x # m)) t else [])"
  by (simp add: then_m_def greedy_plus_def comp_def case_prod_unfold)

lemma then_plus_Nil: "then_m (greedy_plus P) K [] = []"
  by (simp add: then_m_def greedy_plus_def)

lemmas run_matcher =
  then_lit_char_Cons then_lit_char_Nil then_one_char_Cons then_one_char_Nil
  then_star_Cons then_star_Nil then_plus_Cons then_plus_Nil return_m_def

lemma version_two_matches:
  "re_match version_pattern ''v1.2.411-nightly(v2.0.0-x('' = Some [''2'', ''0'', ''0'', ''x'']"
  by (simp add: re_match_def version_pattern_def run_matcher is_digit_def code_def is_dot_def
      newline_def)

lemma version_second_line:
  "re_match version_pattern (''ok'' @ [newline] @ ''v1.2.411-nightly('') = None"
  by (simp add: re_match_def version_pattern_def run_matcher is_digit_def code_def is_dot_def
      newline_def)

lemma version_dot_replaced:
  "re_match version_pattern ''v1x2x3-a('' = Some [''1'', ''2'', ''3'', ''a'']"
  by (simp add: re_match_def version_pattern_def run_matcher is_digit_def code_def is_dot_def
      newline_def)

lemma version_examples_no_match:
  "version_pattern ''rust-1.77.0-nightly)'' = []" "version_pattern ''dev)'' = []"
  "version_pattern ''unknown'' = []"
  by (simp_all add: version_pattern_def run_matcher is_digit_def code_def is_dot_def newline_def)

lemma scalar_one_value:
  "respond c (q, []) = Inr [[v]] \<Longrightarrow> fst (scalar c q) = Inr v"
  by (simp add: scalar_def execute_def row_get_def)

lemma get_server_version_info_str:
  assumes "respond c (''SELECT VERSION()'', []) = Inr [[PyStr s]]"
  shows "fst (get_server_version_info c)
           = (case re_match version_pattern s of
                None \<Rightarrow> Inl (version_error s)
              | Some groups \<Rightarrow> comprehension py_int (take 3 groups))"
  using assms
  by (simp add: get_server_version_info_def scalar_def execute_def row_get_def split: option.split)

lemma py_int_small:
  "py_int ''0'' = Inr 0" "py_int ''1'' = Inr 1" "py_int ''2'' = Inr 2" "py_int ''3'' = Inr 3"
  "py_int ''411'' = Inr 411"
  by (simp_all add: py_int_def strip_def is_space_def is_digit_def code_def valid_int_body_def
      int_max_str_digits_def decimal_value_def digit_value_def)

subsection \<open>Server version\<close>

text \<open>
  C6, counterexample. Two strings that contain \<open>v1.2.411-nightly(\<close>: with a second
  version after it the result is \<open>(2, 0, 0)\<close>, and with a line before it the parse
  error is raised. And a string without the pattern, \<open>v1x2x3-a(\<close>, for which a tuple
  is returned: the dots of the pattern are written unescaped.
\<close>

theorem server_version_last_match_counterexample:
  "fst (get_server_version_info (answering [[PyStr ''v1.2.411-nightly(v2.0.0-x('']])) = Inr [2, 0, 0]
   \<and> fst (get_server_version_info (answering [[PyStr (''ok'' @ [newline] @ ''v1.2.411-nightly('')]]))
       = Inl (version_error (''ok'' @ [newline] @ ''v1.2.411-nightly(''))
   \<and> fst (get_server_version_info (answering [[PyStr ''v1x2x3-a('']])) = Inr [1, 2, 3]"
  using version_two_matches version_second_line version_dot_replaced
  by (simp add: get_server_version_info_def scalar_def execute_def row_get_def answering_def
      py_int_small)

text \<open>
  C6. Server-version detection reads the string that \<open>SELECT VERSION()\<close> returns. On
  a string that has \<open>v1.2.411-nightly(\<close> on its first line, with no match of the pattern
  after it, it returns \<open>(1, 2, 411)\<close>. On every string that does not match the pattern
  \<open>vMAJOR.MINOR.PATCH-...(\<close> on its first line it raises the assertion error. Nothing
  is said of the strings in which another character stands in the place of a dot of the
  pattern.
\<close>

theorem server_version_parsing:
  "(newline \<notin> set pre \<and> \<not> version_text suf \<and> \<not> dot_replaced_text suf
      \<and> respond c (''SELECT VERSION()'', []) = Inr [[PyStr (pre @ ''v1.2.411-nightly('' @ suf)]]
      \<longrightarrow> fst (get_server_version_info c) = Inr [1, 2, 411])
   \<and> (\<not> version_text s \<and> \<not> dot_replaced_text s
      \<and> respond c (''SELECT VERSION()'', []) = Inr [[PyStr s]]
      \<longrightarrow> fst (get_server_version_info c) = Inl (version_error s))"
proof -
  have a: "fst (get_server_version_info c) = Inr [1, 2, 411]"
    if "newline \<notin> set pre" "\<not> version_text suf" "\<not> dot_replaced_text suf"
      "respond c (''SELECT VERSION()'', []) = Inr [[PyStr (pre @ ''v1.2.411-nightly('' @ suf)]]"
  proof -
    from that(2,3) have "version_pattern suf = []"
      by (simp add: version_pattern_empty_iff accepted_text_iff)
    from version_last_match [OF that(1) this] show ?thesis
      unfolding get_server_version_info_str [OF that(4)] by (simp add: py_int_small)
  qed
  have b: "fst (get_server_version_info c) = Inl (version_error s)"
    if "\<not> version_text s" "\<not> dot_replaced_text s"
      "respond c (''SELECT VERSION()'', []) = Inr [[PyStr s]]"
  proof -
    from that(1,2) have "re_match version_pattern s = None"
      by (simp add: re_match_None version_pattern_empty_iff accepted_text_iff)
    then show ?thesis
      unfolding get_server_version_info_str [OF that(3)] by simp
  qed
  from a b show ?thesis by blast
qed

theorem server_version_parsing_witness:
  "fst (get_server_version_info
          (answering [[PyStr ''Databend Query v1.2.411-nightly(rust-1.77.0-nightly)'']]))
     = Inr [1, 2, 411]
   \<and> fst (get_server_version_info (answering [[PyStr ''v1.2.411-nightly(dev)'']])) = Inr [1, 2, 411]
   \<and> fst (get_server_version_info (answering [[PyStr ''unknown'']])) = Inl (version_error ''unknown'')"
proof -
  have n: "\<not> version_text ''rust-1.77.0-nightly)''" "\<not> dot_replaced_text ''rust-1.77.0-nightly)''"
    "\<not> version_text ''dev)''" "\<not> dot_replaced_text ''dev)''"
    "\<not> version_text ''unknown''" "\<not> dot_replaced_text ''unknown''"
    using version_examples_no_match
      accepted_text_iff [of "''rust-1.77.0-nightly)''"] accepted_text_iff [of "''dev)''"]
      accepted_text_iff [of "''unknown''"]
      version_pattern_empty_iff [of "''rust-1.77.0-nightly)''"] version_pattern_empty_iff [of "''dev)''"]
      version_pattern_empty_iff [of "''unknown''"]
    by blast+
  show ?thesis
    using server_version_parsing [of "''Databend Query ''" "''rust-1.77.0-nightly)''"
        "answering [[PyStr ''Databend Query v1.2.411-nightly(rust-1.77.0-nightly)'']]" "''unknown''"]
      server_version_parsing [of "[]" "''dev)''" "answering [[PyStr ''v1.2.411-nightly(dev)'']]" "''unknown''"]
      server_version_parsing [of "[]" "[]" "answering [[PyStr ''unknown'']]" "''unknown''"]
      n
    by (simp add: answering_def newline_def)
qed

subsection \<open>The type name of a column type\<close>

lemma split_loop_first:
  "\<exists>rest. split_loop c0 [] cur s = (cur @ takeWhile (\<lambda>x. x \<noteq> c0) s) # rest"
proof (induction s arbitrary: cur)
  case Nil
  then show ?case by simp
next
  case (Cons x s)
  show ?case
  proof (cases "x = c0")
    case True
    then show ?thesis by (simp add: is_prefix_def)
  next
    case False
    with Cons [of "cur @ [x]"] show ?thesis by (simp add: is_prefix_def)
  qed
qed

lemma extract_without_nullable:
  assumes "\<not> str_contains ''Nullable'' t"
  shows "extract_nullable_string t = takeWhile (\<lambda>x. x \<noteq> CHR ''('') t"
proof -
  from split_loop_first [of "CHR ''(''" "[]" t] obtain rest
    where "split_loop CHR ''('' [] [] t = takeWhile (\<lambda>x. x \<noteq> CHR ''('') t # rest"
    by auto
  then show ?thesis
    using assms by (simp add: extract_nullable_string_def str_split_def Let_def)
qed

lemma word_not_paren: "is_word x \<Longrightarrow> x \<noteq> CHR ''('' \<and> x \<noteq> CHR '')''"
  by (auto simp: is_word_def code_def Let_def)

lemma not_word_paren: "\<not> is_word CHR ''(''" "\<not> is_word CHR '')''"
  by (simp_all add: is_word_def code_def Let_def)

lemma then_optional:
  "then_m (optional p) K s = then_m p (\<lambda>g. K (Some g)) s @ K None s"
  by (simp add: then_m_def optional_def comp_def case_prod_unfold)

lemma then_lit_str:
  "then_m (lit_str w) K s = (if is_prefix w s then K w (drop (length w) s) else [])"
  by (simp add: then_m_def lit_str_def)

lemma concat_map_concat:
  "concat (map g (concat (map f xs))) = concat (map (\<lambda>x. concat (map g (f x))) xs)"
  by (induction xs) auto

lemma then_m_assoc: "then_m (then_m p f) K s = then_m p (\<lambda>a. then_m (f a) K) s"
  by (simp add: then_m_def concat_map_concat case_prod_unfold)

lemma takeWhile_upto:
  "c \<notin> set n \<Longrightarrow> takeWhile (\<lambda>x. x \<noteq> c) (n @ c # t) = n"
  "c \<notin> set n \<Longrightarrow> takeWhile (\<lambda>x. x \<noteq> c) n = n"
  by (induction n) auto

lemma nullable_rest_fails:
  assumes "is_word x"
  shows "then_m (optional parenthesized)
           (\<lambda>g2. then_m (lit_char CHR '')'') (\<lambda>_. return_m (g1, g2))) (x # r) = []"
  using word_not_paren [OF assms]
  by (simp add: then_optional parenthesized_def then_m_assoc then_lit_char_Cons)

lemma nullable_pattern_longest:
  "nullable_pattern (CHR ''N'' # CHR ''u'' # CHR ''l'' # CHR ''l'' # CHR ''a'' # CHR ''b'' # CHR ''l'' # CHR ''e'' # CHR ''('' # t)
     = (if takeWhile is_word t = [] then []
        else then_m (optional parenthesized)
               (\<lambda>g2. then_m (lit_char CHR '')'') (\<lambda>_. return_m (takeWhile is_word t, g2)))
               (dropWhile is_word t))"
proof -
  have "nullable_pattern (CHR ''N'' # CHR ''u'' # CHR ''l'' # CHR ''l'' # CHR ''a'' # CHR ''b'' # CHR ''l'' # CHR ''e'' # CHR ''('' # t)
          = then_m (greedy_plus is_word)
              (\<lambda>g1. then_m (optional parenthesized)
                 (\<lambda>g2. then_m (lit_char CHR '')'') (\<lambda>_. return_m (g1, g2)))) t"
    by (simp add: nullable_pattern_def then_lit_str is_prefix_def then_lit_char_Cons)
  also have "\<dots> = (if takeWhile is_word t = [] then []
        else then_m (optional parenthesized)
               (\<lambda>g2. then_m (lit_char CHR '')'') (\<lambda>_. return_m (takeWhile is_word t, g2)))
               (dropWhile is_word t))"
    by (rule greedy_plus_longest) (rule nullable_rest_fails)
  finally show ?thesis .
qed

lemma word_then:
  assumes "n \<noteq> []" "list_all is_word n" "\<not> is_word x"
  shows "takeWhile is_word (n @ x # t) = n" and "dropWhile is_word (n @ x # t) = x # t"
  using assms by (auto simp: list_all_iff takeWhile_append2 dropWhile_append2)

lemma nullable_plain:
  assumes "n \<noteq> []" "list_all is_word n"
  shows "re_match nullable_pattern (''Nullable('' @ n @ '')'' @ rest) = Some (n, None)"
  using assms word_then [OF assms not_word_paren(2), of rest]
  by (simp add: nullable_pattern_longest re_match_def then_optional parenthesized_def
      then_m_assoc then_lit_char_Cons return_m_def)

lemma nullable_with_arguments:
  assumes "n \<noteq> []" "list_all is_word n" "newline \<notin> set args"
  shows "\<exists>g2. re_match nullable_pattern (''Nullable('' @ n @ ''('' @ args @ ''))'' @ rest) = Some (n, g2)"
proof -
  let ?t = "CHR ''('' # args @ ''))'' @ rest"
  let ?K = "\<lambda>g2. then_m (lit_char CHR '')'') (\<lambda>_. return_m (n, g2))"
  have eq: "nullable_pattern (''Nullable('' @ n @ ''('' @ args @ ''))'' @ rest)
              = then_m (optional parenthesized) ?K ?t"
    using assms(1) word_then [OF assms(1,2) not_word_paren(1), of "args @ ''))'' @ rest"]
    by (simp add: nullable_pattern_longest)
  have "\<forall>x \<in> set args. is_dot x"
    using assms(3) by (auto simp: is_dot_def)
  then have "(args, CHR '')'' # rest) \<in> set (parenthesized ?t)"
    unfolding parenthesized_def in_then_m in_lit_char in_lazy_star in_return_m
    by (intro exI [of _ "[CHR ''('']"] exI [of _ "args @ ''))'' @ rest"] conjI
        exI [of _ args] exI [of _ "''))'' @ rest"] exI [of _ "[CHR '')'']"]
        exI [of _ "CHR '')'' # rest"]) simp_all
  then have "((n, Some args), rest) \<in> set (then_m (optional parenthesized) ?K ?t)"
    unfolding in_then_m in_optional in_lit_char in_return_m
    by (intro exI [of _ "Some args"] exI [of _ "CHR '')'' # rest"] conjI disjI2
        exI [of _ args] exI [of _ "[CHR '')'']"] exI [of _ rest]) simp_all
  then have ne: "then_m (optional parenthesized) ?K ?t \<noteq> []"
    by auto
  have "fst g = n" if "(g, r) \<in> set (then_m (optional parenthesized) ?K ?t)" for g r
    using that unfolding in_then_m in_lit_char in_return_m by auto
  then have "fst (fst (hd (then_m (optional parenthesized) ?K ?t))) = n"
    using ne by (metis hd_in_set prod.collapse)
  then show ?thesis
    unfolding eq [symmetric] using ne re_match_hd [of nullable_pattern] eq
    by (metis prod.collapse)
qed

lemma contains_Nullable: "str_contains ''Nullable'' (''Nullable('' @ t)"
  by (simp add: is_prefix_def)

lemma example_types:
  "extract_nullable_string ''Nullable(Array(INT))'' = ''Array''"
  "extract_nullable_string ''Decimal(1,2)'' = ''Decimal''"
  "extract_nullable_string ''FLOAT'' = ''FLOAT''"
  "extract_nullable_string ''Tuple(INT)'' = ''Tuple''"
proof -
  have w: "list_all is_word ''Array''"
    by (simp add: is_word_def code_def Let_def)
  from nullable_with_arguments [of "''Array''" "''INT''" "[]"] w
  obtain g2 where "re_match nullable_pattern ''Nullable(Array(INT))'' = Some (''Array'', g2)"
    by (auto simp: newline_def)
  then show "extract_nullable_string ''Nullable(Array(INT))'' = ''Array''"
    using contains_Nullable [of "''Array(INT))''"] by (simp add: extract_nullable_string_def)
  have "\<not> str_contains ''Nullable'' ''Decimal(1,2)''" "\<not> str_contains ''Nullable'' ''FLOAT''"
    "\<not> str_contains ''Nullable'' ''Tuple(INT)''"
    by (simp_all add: is_prefix_def)
  then show "extract_nullable_string ''Decimal(1,2)'' = ''Decimal''"
    "extract_nullable_string ''FLOAT'' = ''FLOAT''"
    "extract_nullable_string ''Tuple(INT)'' = ''Tuple''"
    by (simp_all add: extract_without_nullable)
qed

lemma example_lower:
  "lower ''Array'' = ''array''" "lower ''Decimal'' = ''decimal''" "lower ''FLOAT'' = ''float''"
  "lower ''Tuple'' = ''tuple''"
  by (simp_all add: lower_def lower_char_def code_def Let_def char_of_eq_iff)

subsection \<open>Type names\<close>

text \<open>
  C7, counterexample. \<open>Tuple(INT)\<close> yields \<open>Tuple\<close>, and \<open>tuple\<close> is not a key of the
  type-name mapping.
\<close>

theorem extract_nullable_string_tuple_counterexample:
  "lower (extract_nullable_string ''Tuple(INT)'') = ''tuple''
   \<and> map_of ischema_names ''tuple'' = None"
  by (simp add: example_types example_lower ischema_names_def)

text \<open>
  C7. \<open>extract_nullable_string\<close> strips an optional \<open>Nullable(...)\<close> wrapper and a
  parenthesized argument list and returns the type name as it is written: for a name
  \<open>n\<close> of word characters, \<open>Nullable(n)\<close> and \<open>Nullable(n(args))\<close> yield \<open>n\<close>, and, in a
  string without \<open>Nullable\<close>, \<open>n(args)\<close> and \<open>n\<close> yield \<open>n\<close>. The result is therefore a
  key of the type-name mapping, up to case, when the name is one:
  \<open>Nullable(Array(INT))\<close> yields \<open>Array\<close>, in lower case the key \<open>array\<close>;
  \<open>Decimal(1,2)\<close> yields the key \<open>decimal\<close>, and \<open>FLOAT\<close> the key \<open>float\<close>.
\<close>

theorem extract_nullable_string_strips:
  "(n \<noteq> [] \<and> list_all is_word n \<longrightarrow>
      extract_nullable_string (''Nullable('' @ n @ '')'') = n
      \<and> (newline \<notin> set args \<longrightarrow>
            extract_nullable_string (''Nullable('' @ n @ ''('' @ args @ ''))'') = n))
   \<and> (CHR ''('' \<notin> set n \<and> \<not> str_contains ''Nullable'' (n @ ''('' @ args @ '')'') \<longrightarrow>
        extract_nullable_string (n @ ''('' @ args @ '')'') = n)
   \<and> (CHR ''('' \<notin> set n \<and> \<not> str_contains ''Nullable'' n \<longrightarrow> extract_nullable_string n = n)
   \<and> lower (extract_nullable_string ''Nullable(Array(INT))'') = ''array''
   \<and> map_of ischema_names ''array'' = Some ARRAY
   \<and> lower (extract_nullable_string ''Decimal(1,2)'') = ''decimal''
   \<and> map_of ischema_names ''decimal'' = Some DECIMAL
   \<and> lower (extract_nullable_string ''FLOAT'') = ''float''
   \<and> map_of ischema_names ''float'' = Some FLOAT"
proof -
  have a: "extract_nullable_string (''Nullable('' @ n @ '')'') = n"
    if "n \<noteq> []" "list_all is_word n"
    using nullable_plain [OF that, of "[]"] contains_Nullable [of "n @ '')''"]
    by (simp add: extract_nullable_string_def)
  have b: "extract_nullable_string (''Nullable('' @ n @ ''('' @ args @ ''))'') = n"
    if "n \<noteq> []" "list_all is_word n" "newline \<notin> set args"
  proof -
    from nullable_with_arguments [OF that, of "[]"] obtain g2
      where "re_match nullable_pattern (''Nullable('' @ n @ ''('' @ args @ ''))'') = Some (n, g2)"
      by auto
    then show ?thesis
      using contains_Nullable [of "n @ ''('' @ args @ ''))''"]
      by (simp add: extract_nullable_string_def)
  qed
  have c: "extract_nullable_string (n @ ''('' @ args @ '')'') = n"
    if "CHR ''('' \<notin> set n" "\<not> str_contains ''Nullable'' (n @ ''('' @ args @ '')'')"
    using that by (simp add: extract_without_nullable takeWhile_upto)
  have d: "extract_nullable_string n = n"
    if "CHR ''('' \<notin> set n" "\<not> str_contains ''Nullable'' n"
    using that by (simp add: extract_without_nullable takeWhile_upto)
  have e: "lower (extract_nullable_string ''Nullable(Array(INT))'') = ''array''"
    "map_of ischema_names ''array'' = Some ARRAY"
    "lower (extract_nullable_string ''Decimal(1,2)'') = ''decimal''"
    "map_of ischema_names ''decimal'' = Some DECIMAL"
    "lower (extract_nullable_string ''FLOAT'') = ''float''"
    "map_of ischema_names ''float'' = Some FLOAT"
    by (simp_all add: example_types example_lower ischema_names_def)
  from a b c d e show ?thesis by blast
qed

theorem extract_nullable_string_strips_witness:
  "extract_nullable_string ''Nullable(Int32)'' = ''Int32''
   \<and> extract_nullable_string ''Nullable(Decimal(2, 4))'' = ''Decimal''
   \<and> extract_nullable_string ''Map(String, String)'' = ''Map''
   \<and> extract_nullable_string ''INT'' = ''INT''"
proof -
  have w: "list_all is_word ''Int32''" "list_all is_word ''Decimal''"
    by (simp_all add: is_word_def code_def Let_def)
  have n: "\<not> str_contains ''Nullable'' ''Map(String, String)''" "\<not> str_contains ''Nullable'' ''INT''"
    by (simp_all add: is_prefix_def)
  show ?thesis
    using extract_nullable_string_strips [of "''Int32''" "[]"]
      extract_nullable_string_strips [of "''Decimal''" "''2, 4''"]
      extract_nullable_string_strips [of "''Map''" "''String, String''"]
      extract_nullable_string_strips [of "''INT''" "[]"] w n
    by (simp add: newline_def)
qed

end
